theory Spec2Isabelle
  imports Complex_Main "HOL-Library.Char_ord" "HOL-Library.List_Lexorder" "HOL-Library.Multiset"
begin

section \<open>Text primitives of the Python runtime\<close>

text \<open>
  Cell texts are modelled as \<^typ>\<open>string\<close> and read as ASCII text: the character
  classes below are the ones Python uses on code points below 128. A missing cell
  (pandas NaN, for which \<^verbatim>\<open>pd.isna\<close> holds) is \<^term>\<open>None\<close>.
\<close>

type_synonym cell = "string option"

text \<open>\<^verbatim>\<open>str.isspace\<close>, which \<^verbatim>\<open>str.strip()\<close>, \<^verbatim>\<open>str.split()\<close> and the
  regular expression class \<^verbatim>\<open>\s\<close> use: code points 9-13, 28-31 and 32.\<close>

definition is_space :: "char \<Rightarrow> bool" where
  "is_space c = (let n = (of_char c :: nat) in (9 \<le> n \<and> n \<le> 13) \<or> (28 \<le> n \<and> n \<le> 32))"

text \<open>The narrower class \<^verbatim>\<open>Py_ISSPACE\<close> that \<^verbatim>\<open>int()\<close> skips around an ASCII
  numeral: code points 9-13 and 32.\<close>

definition is_c_space :: "char \<Rightarrow> bool" where
  "is_c_space c = (let n = (of_char c :: nat) in (9 \<le> n \<and> n \<le> 13) \<or> n = 32)"

definition is_digit :: "char \<Rightarrow> bool" where
  "is_digit c = (let n = (of_char c :: nat) in 48 \<le> n \<and> n \<le> 57)"

definition digit_val :: "char \<Rightarrow> int" where
  "digit_val c = int (of_char c) - 48"

definition lower_char :: "char \<Rightarrow> char" where
  "lower_char c = (let n = (of_char c :: nat) in if 65 \<le> n \<and> n \<le> 90 then char_of (n + 32) else c)"

definition upper_char :: "char \<Rightarrow> char" where
  "upper_char c = (let n = (of_char c :: nat) in if 97 \<le> n \<and> n \<le> 122 then char_of (n - 32) else c)"

definition lower :: "string \<Rightarrow> string" where
  "lower s = map lower_char s"

definition upper :: "string \<Rightarrow> string" where
  "upper s = map upper_char s"

definition lstrip :: "string \<Rightarrow> string" where
  "lstrip s = dropWhile is_space s"

definition rstrip :: "string \<Rightarrow> string" where
  "rstrip s = rev (dropWhile is_space (rev s))"

definition strip :: "string \<Rightarrow> string" where
  "strip s = rstrip (lstrip s)"

text \<open>\<^verbatim>\<open>sub in s\<close> on strings.\<close>

fun contains :: "string \<Rightarrow> string \<Rightarrow> bool" where
  "contains sub [] = (sub = [])"
| "contains sub (c # cs) = (take (length sub) (c # cs) = sub \<or> contains sub cs)"

text \<open>\<^verbatim>\<open>s.split(d)\<close> with an explicit one-character separator: every separator
  cuts, empty fields are kept, and the empty string gives one empty field.\<close>

fun split_on :: "char \<Rightarrow> string \<Rightarrow> string list" where
  "split_on d [] = [[]]"
| "split_on d (c # cs) =
     (if c = d then [] # split_on d cs
      else (case split_on d cs of
              [] \<Rightarrow> [[c]]
            | p # ps \<Rightarrow> (c # p) # ps))"

text \<open>\<^verbatim>\<open>s.split()\<close> without argument: the maximal runs of non-space characters.
  The first argument of the worker is the current word, reversed.\<close>

fun split_ws_from :: "string \<Rightarrow> string \<Rightarrow> string list" where
  "split_ws_from cur [] = (if cur = [] then [] else [rev cur])"
| "split_ws_from cur (c # cs) =
     (if is_space c
      then (if cur = [] then split_ws_from [] cs else rev cur # split_ws_from [] cs)
      else split_ws_from (c # cur) cs)"

definition split_ws :: "string \<Rightarrow> string list" where
  "split_ws s = split_ws_from [] s"

text \<open>\<^verbatim>\<open>int(s)\<close> on ASCII text, with \<^term>\<open>None\<close> for \<^verbatim>\<open>ValueError\<close>: optional
  surrounding white space, an optional sign, then decimal digits in which single
  underscores may stand between two digits. \<^term>\<open>py_digits\<close> reads what follows a
  digit. A text with more digits than the interpreter's limit for the conversion
  (\<^verbatim>\<open>sys.int_info.default_max_str_digits\<close>, 4300 since CPython 3.11) is refused
  with \<^verbatim>\<open>ValueError\<close> as well; leading zeros count, underscores do not.\<close>

fun py_digits :: "int \<Rightarrow> string \<Rightarrow> int option" where
  "py_digits acc [] = Some acc"
| "py_digits acc [c] = (if is_digit c then Some (acc * 10 + digit_val c) else None)"
| "py_digits acc (c # d # ds) =
     (if is_digit c then py_digits (acc * 10 + digit_val c) (d # ds)
      else if c = CHR ''_'' \<and> is_digit d then py_digits (acc * 10 + digit_val d) ds
      else None)"

definition py_unsigned :: "string \<Rightarrow> int option" where
  "py_unsigned s =
     (case s of
        [] \<Rightarrow> None
      | c # cs \<Rightarrow> if is_digit c then py_digits (digit_val c) cs else None)"

definition c_strip :: "string \<Rightarrow> string" where
  "c_strip s = rev (dropWhile is_c_space (rev (dropWhile is_c_space s)))"

definition max_str_digits :: nat where
  "max_str_digits = 4300"

definition py_int :: "string \<Rightarrow> int option" where
  "py_int s =
     (if max_str_digits < length (filter is_digit s) then None
      else (case c_strip s of
              [] \<Rightarrow> None
            | c # cs \<Rightarrow>
                if c = CHR ''+'' then py_unsigned cs
                else if c = CHR ''-'' then map_option uminus (py_unsigned cs)
                else py_unsigned (c # cs)))"

section \<open>Floating point\<close>

text \<open>
  A Python \<^verbatim>\<open>float\<close> and a NumPy \<^verbatim>\<open>float64\<close> are IEEE 754 doubles. A finite
  double is modelled by the rational number it stands for, so the two zeros are one
  value here. Every operation below computes the exact result and rounds it to the
  nearest double, a tie going to the neighbour with the even significand.
\<close>

datatype float64 = Finite rat | PosInf | NegInf | NaN

datatype py_error =
  ValueError "string list" | KeyError "string list" | AttributeError | TypeError
  | OverflowError | Exception string

definition pow2 :: "int \<Rightarrow> rat" where
  "pow2 e = (if 0 \<le> e then 2 ^ nat e else 1 / 2 ^ nat (- e))"

text \<open>The position of the leading bit of a positive integer.\<close>

function ilog2 :: "int \<Rightarrow> int" where
  "ilog2 n = (if n < 2 then 0 else ilog2 (n div 2) + 1)"
  by auto
termination
  by (relation "measure nat") auto

text \<open>The exponent \<open>e\<close> with \<open>2\<^sup>e \<le> x < 2\<^sup>e\<^sup>+\<^sup>1\<close>, for a positive \<open>x\<close>.\<close>

definition floor_log2 :: "rat \<Rightarrow> int" where
  "floor_log2 x =
     (let (p, q) = quotient_of x;
          e = ilog2 p - ilog2 q
      in if pow2 e \<le> x then e else e - 1)"

text \<open>\<^verbatim>\<open>round()\<close> of IEEE 754 to an integer: to the nearest, a tie to the even one.\<close>

definition round_half_even :: "rat \<Rightarrow> int" where
  "round_half_even q =
     (let f = \<lfloor>q\<rfloor>; r = q - of_int f
      in if r < 1 / 2 then f else if 1 / 2 < r then f + 1 else if even f then f else f + 1)"

text \<open>The distance of neighbouring doubles around \<open>x\<close>: 53 significant bits, and
  \<open>2\<^sup>-\<^sup>1\<^sup>0\<^sup>7\<^sup>4\<close> below the smallest normal number.\<close>

definition ulp :: "rat \<Rightarrow> rat" where
  "ulp x = pow2 (max (floor_log2 \<bar>x\<bar>) (- 1022) - 52)"

definition nearest_double :: "rat \<Rightarrow> rat" where
  "nearest_double x = (if x = 0 then 0 else of_int (round_half_even (x / ulp x)) * ulp x)"

text \<open>From this magnitude on the nearest double would be \<open>2\<^sup>1\<^sup>0\<^sup>2\<^sup>4\<close>, which does not
  exist: half a step above the largest double \<open>2\<^sup>1\<^sup>0\<^sup>2\<^sup>4 - 2\<^sup>9\<^sup>7\<^sup>1\<close>.\<close>

definition overflow_threshold :: rat where
  "overflow_threshold = 2 ^ 1024 - 2 ^ 970"

text \<open>The result of an arithmetic operation of the processor: overflow gives an
  infinity.\<close>

definition to_float64 :: "rat \<Rightarrow> float64" where
  "to_float64 x =
     (if overflow_threshold \<le> x then PosInf
      else if x \<le> - overflow_threshold then NegInf
      else Finite (nearest_double x))"

text \<open>Python's \<^verbatim>\<open>a / b\<close> on two \<^verbatim>\<open>int\<close> (\<open>b\<close> not zero) and the conversion of
  an \<^verbatim>\<open>int\<close> to \<^verbatim>\<open>float\<close>, which \<^verbatim>\<open>int + float\<close> performs on its left operand:
  both are correctly rounded and raise \<^verbatim>\<open>OverflowError\<close> where the processor would
  give an infinity.\<close>

definition int_truediv :: "int \<Rightarrow> int \<Rightarrow> py_error + float64" where
  "int_truediv a b =
     (if overflow_threshold \<le> \<bar>of_int a / of_int b\<bar> then Inl OverflowError
      else Inr (Finite (nearest_double (of_int a / of_int b))))"

definition float_of_int :: "int \<Rightarrow> py_error + float64" where
  "float_of_int a =
     (if overflow_threshold \<le> \<bar>of_int a\<bar> then Inl OverflowError
      else Inr (Finite (nearest_double (of_int a))))"

fun float_add :: "float64 \<Rightarrow> float64 \<Rightarrow> float64" where
  "float_add (Finite a) (Finite b) = to_float64 (a + b)"
| "float_add NaN y = NaN"
| "float_add x NaN = NaN"
| "float_add PosInf NegInf = NaN"
| "float_add NegInf PosInf = NaN"
| "float_add PosInf y = PosInf"
| "float_add NegInf y = NegInf"
| "float_add x PosInf = PosInf"
| "float_add x NegInf = NegInf"

text \<open>Multiplication and division by a positive constant that is a double itself, and
  \<^verbatim>\<open>x > c\<close>.\<close>

fun float_times :: "float64 \<Rightarrow> rat \<Rightarrow> float64" where
  "float_times (Finite a) c = to_float64 (a * c)"
| "float_times x c = x"

fun float_over :: "float64 \<Rightarrow> rat \<Rightarrow> float64" where
  "float_over (Finite a) c = to_float64 (a / c)"
| "float_over x c = x"

fun float_gt :: "float64 \<Rightarrow> rat \<Rightarrow> bool" where
  "float_gt (Finite a) c = (c < a)"
| "float_gt PosInf c = True"
| "float_gt x c = False"

text \<open>\<^verbatim>\<open>numpy.rint\<close>, and \<^verbatim>\<open>ndarray.round(n)\<close> for \<open>n > 0\<close>, which multiplies by
  \<open>10\<^sup>n\<close>, rounds to an integer and divides by \<open>10\<^sup>n\<close>, each step a floating-point
  operation. \<^verbatim>\<open>Series.round\<close> of pandas calls it on the values of the column.\<close>

fun rint :: "float64 \<Rightarrow> float64" where
  "rint (Finite a) = Finite (of_int (round_half_even a))"
| "rint x = x"

definition np_round :: "nat \<Rightarrow> float64 \<Rightarrow> float64" where
  "np_round n x = float_over (rint (float_times x (10 ^ n))) (10 ^ n)"

text \<open>The double that a decimal numeral of the program text or of a printed table
  denotes.\<close>

definition float_literal :: "rat \<Rightarrow> float64" where
  "float_literal q = to_float64 q"

section \<open>Duration parser\<close>

text \<open>\<^verbatim>\<open>parse_duration_to_minutes\<close> (the same text in both source files). The three
  guards of the first line are the missing cell, the sentinel and the empty text;
  \<^verbatim>\<open>ValueError\<close> from \<^verbatim>\<open>int\<close> is caught and gives \<^term>\<open>None\<close>. In
  \<^verbatim>\<open>hours * 60 + minutes + seconds / 60\<close> the sum on the left is an \<^verbatim>\<open>int\<close>, the
  quotient a \<^verbatim>\<open>float\<close>, and the last addition converts the \<^verbatim>\<open>int\<close>;
  \<^verbatim>\<open>OverflowError\<close> is not among the exceptions that the function catches.\<close>

definition minutes_of :: "int \<Rightarrow> int \<Rightarrow> int \<Rightarrow> py_error + float64 option" where
  "minutes_of hours minutes seconds =
     (case int_truediv seconds 60 of
        Inl e \<Rightarrow> Inl e
      | Inr q \<Rightarrow>
          (case float_of_int (hours * 60 + minutes) of
             Inl e \<Rightarrow> Inl e
           | Inr m \<Rightarrow> Inr (Some (float_add m q))))"

definition parse_duration_to_minutes :: "cell \<Rightarrow> py_error + float64 option" where
  "parse_duration_to_minutes duration_str =
     (case duration_str of
        None \<Rightarrow> Inr None
      | Some s \<Rightarrow>
          if s = ''No data'' \<or> s = [] then Inr None
          else (case split_on CHR '':'' s of
                  [a, b, c] \<Rightarrow>
                    (case py_int a of
                       None \<Rightarrow> Inr None
                     | Some hours \<Rightarrow>
                         (case py_int b of
                            None \<Rightarrow> Inr None
                          | Some minutes \<Rightarrow>
                              (case py_int c of
                                 None \<Rightarrow> Inr None
                               | Some seconds \<Rightarrow> minutes_of hours minutes seconds)))
                | _ \<Rightarrow> Inr None))"

section \<open>Entity normalizer\<close>

text \<open>
  Both regular expressions of \<^verbatim>\<open>normalize_name\<close> end in \<^verbatim>\<open>$\<close> and are used
  with \<^verbatim>\<open>re.IGNORECASE\<close>. The alternatives of the first one,
  \<^verbatim>\<open>NP|FNP-C|MD|PA|LLC|Inc\.?|INC\.?|PLLC\<close>, are these eight texts up to letter case.
\<close>

definition CREDENTIALS :: "string list" where
  "CREDENTIALS = [''np'', ''fnp-c'', ''md'', ''pa'', ''llc'', ''inc'', ''inc.'', ''pllc'']"

text \<open>The whole text \<open>t\<close> matches \<^verbatim>\<open>\s+(NP|...|PLLC)\<close>: the greedy \<^verbatim>\<open>\s+\<close> has to
  take the complete run of white space, since no alternative starts with a space.\<close>

definition credential_at :: "string \<Rightarrow> bool" where
  "credential_at t =
     (case t of
        [] \<Rightarrow> False
      | c # cs \<Rightarrow> is_space c \<and> lower (dropWhile is_space cs) \<in> set CREDENTIALS)"

text \<open>The whole text \<open>t\<close> matches \<^verbatim>\<open>,\s*NP\<close>.\<close>

definition comma_np_at :: "string \<Rightarrow> bool" where
  "comma_np_at t =
     (case t of
        [] \<Rightarrow> False
      | c # cs \<Rightarrow> c = CHR '','' \<and> lower (dropWhile is_space cs) = ''np'')"

text \<open>
  \<^verbatim>\<open>re.sub(p + '$', '', s)\<close> for a pattern \<open>p\<close> that matches no empty text, given
  as the predicate \<open>m\<close> "the whole text matches \<open>p\<close>". The search takes the leftmost
  position from which the rest of the text matches. Without \<^verbatim>\<open>re.MULTILINE\<close>,
  \<^verbatim>\<open>$\<close> also matches just ahead of a line feed that ends the text; that line feed
  is then kept.
\<close>

fun re_sub_end :: "(string \<Rightarrow> bool) \<Rightarrow> string \<Rightarrow> string" where
  "re_sub_end m [] = []"
| "re_sub_end m (c # cs) =
     (if m (c # cs) then []
      else if last (c # cs) = CHR 0x0A \<and> m (butlast (c # cs)) then [CHR 0x0A]
      else c # re_sub_end m cs)"

text \<open>\<^verbatim>\<open>re.search(p + '$', s)\<close> finds a match that reaches the end of the text:
  some non-empty rest of \<open>s\<close> matches \<open>p\<close>.\<close>

fun re_search_end :: "(string \<Rightarrow> bool) \<Rightarrow> string \<Rightarrow> bool" where
  "re_search_end m [] = False"
| "re_search_end m (c # cs) = (m (c # cs) \<or> re_search_end m cs)"

text \<open>\<^verbatim>\<open>normalize_name\<close> inside \<^verbatim>\<open>get_gusto_hours\<close> (app.py and api/index.py).\<close>

definition normalize_name :: "cell \<Rightarrow> string" where
  "normalize_name name =
     (case name of
        None \<Rightarrow> []
      | Some s \<Rightarrow>
          (let n1 = strip s;
               n2 = re_sub_end credential_at n1;
               n3 = re_sub_end comma_np_at n2
           in strip (lower n3)))"

text \<open>\<^verbatim>\<open>normalize_name\<close> inside \<^verbatim>\<open>get_hours_worked\<close>, which lower-cases first.\<close>

definition hw_normalize_name :: "cell \<Rightarrow> string" where
  "hw_normalize_name name =
     (case name of
        None \<Rightarrow> []
      | Some s \<Rightarrow>
          (let n1 = lower (strip s);
               n2 = re_sub_end credential_at n1;
               n3 = re_sub_end comma_np_at n2
           in strip n3))"

subsection \<open>The normalizer as the specification words it\<close>

text \<open>
  The steps of the specification, for comparison with the code: trim; strip one
  trailing token of the set, optionally preceded by a comma; lower-case; collapse
  white space. The trailing token is the last word of the trimmed name, where a word
  ends at white space or at a comma.
\<close>

definition word_char :: "char \<Rightarrow> bool" where
  "word_char c = (\<not> is_space c \<and> c \<noteq> CHR '','')"

definition spec_strip_suffix :: "string \<Rightarrow> string" where
  "spec_strip_suffix t =
     (let w = rev (takeWhile word_char (rev t));
          front = rstrip (rev (dropWhile word_char (rev t)))
      in if lower w \<in> set CREDENTIALS \<and> length w < length t
         then (if front \<noteq> [] \<and> last front = CHR '','' then rstrip (butlast front) else front)
         else t)"

fun collapse_ws :: "string \<Rightarrow> string" where
  "collapse_ws [] = []"
| "collapse_ws [c] = (if is_space c then '' '' else [c])"
| "collapse_ws (c # d # cs) =
     (if is_space c then (if is_space d then collapse_ws (d # cs) else CHR '' '' # collapse_ws (d # cs))
      else c # collapse_ws (d # cs))"

definition spec_normalize_name :: "string \<Rightarrow> string" where
  "spec_normalize_name s = collapse_ws (lower (spec_strip_suffix (strip s)))"

text \<open>
  The token step alone, read from the end of the name: when the last
  white-space-delimited word is one of the tokens and is not the whole name, that word
  goes together with the white space in front of it.
\<close>

definition strip_credential :: "string \<Rightarrow> string" where
  "strip_credential t =
     (let w = rev (takeWhile (\<lambda>c. \<not> is_space c) (rev t));
          front = rev (dropWhile (\<lambda>c. \<not> is_space c) (rev t))
      in if lower w \<in> set CREDENTIALS \<and> front \<noteq> [] then rstrip front else t)"

text \<open>
  The second substitution alone, read from the end of the name: when the name ends in a
  comma, any white space and the two letters \<^verbatim>\<open>np\<close> in either case, everything
  from that comma on goes.
\<close>

definition strip_comma_np :: "string \<Rightarrow> string" where
  "strip_comma_np t =
     (let w = rev (take 2 (rev t));
          ahead = dropWhile is_space (drop 2 (rev t))
      in if lower w = ''np'' \<and> ahead \<noteq> [] \<and> hd ahead = CHR '','' then rev (tl ahead) else t)"

text \<open>
  A name that ends in a comma, at least one white space and \<^verbatim>\<open>NP\<close>: the match of
  \<^verbatim>\<open>,\s+NP$\<close> at a position. On such a name the first substitution takes the
  white space and the token, and the comma stays behind.
\<close>

definition comma_space_np_at :: "string \<Rightarrow> bool" where
  "comma_space_np_at t =
     (case t of
        [] \<Rightarrow> False
      | c # cs \<Rightarrow> c = CHR '','' \<and> cs \<noteq> [] \<and> is_space (hd cs) \<and>
                 lower (dropWhile is_space cs) = ''np'')"

text \<open>A text without leading or trailing white space, as \<^verbatim>\<open>strip()\<close> returns it.\<close>

definition trimmed :: "string \<Rightarrow> bool" where
  "trimmed s = (s = [] \<or> (\<not> is_space (hd s) \<and> \<not> is_space (last s)))"

section \<open>Identity matcher\<close>

text \<open>
  \<^verbatim>\<open>is_in_doxy\<close> inside \<^verbatim>\<open>get_gusto_hours\<close>. The Python set
  \<^verbatim>\<open>doxy_normalized\<close> is given as a list of its elements; the loop returns at the
  first element that matches, so the order of iteration does not change the result.
\<close>

fun is_in_doxy_loop :: "string \<Rightarrow> string list \<Rightarrow> bool" where
  "is_in_doxy_loop name_normalized [] = False"
| "is_in_doxy_loop name_normalized (doxy_name # rest) =
     (if 2 \<le> card (set (split_ws name_normalized) \<inter> set (split_ws doxy_name)) then True
      else if name_normalized = doxy_name then True
      else is_in_doxy_loop name_normalized rest)"

definition is_in_doxy :: "string list \<Rightarrow> string \<Rightarrow> bool" where
  "is_in_doxy doxy_normalized name_normalized =
     (if name_normalized = [] then False
      else is_in_doxy_loop name_normalized doxy_normalized)"

section \<open>Tables\<close>

text \<open>
  A pandas DataFrame is modelled as the list of its rows, each row a record of the
  columns the code reads. \<^verbatim>\<open>sort_values(col, ascending=False)\<close> reverses the rows,
  sorts them by ascending key and reverses again; the library's default sorting
  algorithm does not fix the order of rows with equal keys, for which the model uses
  a stable sort. No property below depends on the order of equal keys.
\<close>

definition sort_values_desc :: "('a \<Rightarrow> 'k::linorder) \<Rightarrow> 'a list \<Rightarrow> 'a list" where
  "sort_values_desc key rows = rev (sort_key key (rev rows))"

text \<open>The keys of \<^verbatim>\<open>df.groupby(col)\<close>: the distinct values of the column in ascending
  order; rows whose key is missing belong to no group.\<close>

definition group_keys :: "cell list \<Rightarrow> string list" where
  "group_keys ks = sort (remdups (List.map_filter (\<lambda>k. k) ks))"

text \<open>Rounding of an exact quotient to \<open>n\<close> decimals, a tie going to the even
  neighbour. The reconciler's estimate \<open>visits * 20 / 60\<close> is a third of an integer,
  which is never half-way between two numbers of two decimals, so the double that
  \<^verbatim>\<open>round(2)\<close> returns there is the one nearest to this decimal number; the Hours
  Worked column is given as that decimal number.\<close>

definition round_dp :: "nat \<Rightarrow> rat \<Rightarrow> rat" where
  "round_dp n q = of_int (round_half_even (q * 10 ^ n)) / 10 ^ n"

text \<open>
  \<^verbatim>\<open>df[~df[col].apply(f)]\<close> on a frame without rows: \<^verbatim>\<open>apply\<close> on an empty
  column returns an empty column of the same type, which for a column of texts (the
  type the readers give to a column without values) is not a Boolean mask; pandas then
  takes it for a list of column labels, an empty one, and the result is a frame
  without columns. The next access to a column by its label raises \<^verbatim>\<open>KeyError\<close>.
  On a frame with rows the mask is Boolean and the columns stay, also when no row
  passes. \<^verbatim>\<open>KeyError\<close> is given here with the labels that were not found.
\<close>

section \<open>Exclusion filter\<close>

definition EXCLUDED_NAMES :: "string list" where
  "EXCLUDED_NAMES = [''daniel raphael'', ''dan raphael'', ''draphael'']"

text \<open>\<^verbatim>\<open>should_exclude_name\<close> (app.py only; api/index.py has no such function).\<close>

definition should_exclude_name :: "cell \<Rightarrow> bool" where
  "should_exclude_name name =
     (case name of
        None \<Rightarrow> False
      | Some s \<Rightarrow>
          (let name_lower = strip (lower s)
           in list_ex (\<lambda>excluded. contains excluded name_lower) EXCLUDED_NAMES))"

section \<open>Visit counts\<close>

record visit =
  Provider_name :: cell
  Duration :: cell

record visits_row =
  visits_Provider_name :: string
  Total_Visits :: nat

text \<open>\<^verbatim>\<open>get_doxy_visits\<close> of api/index.py: group, count, sort.\<close>

definition api_get_doxy_visits :: "visit list \<Rightarrow> visits_row list" where
  "api_get_doxy_visits doxy_df =
     (let visits = map (\<lambda>k. \<lparr>visits_Provider_name = k,
                              Total_Visits = length (filter (\<lambda>r. Provider_name r = Some k) doxy_df)\<rparr>)
                       (group_keys (map Provider_name doxy_df))
      in sort_values_desc Total_Visits visits)"

text \<open>\<^verbatim>\<open>get_doxy_visits\<close> of app.py: the same two statements after the exclusion
  filter. On a frame without rows the filter leaves no column and
  \<^verbatim>\<open>groupby("Provider name")\<close> raises.\<close>

definition get_doxy_visits :: "visit list \<Rightarrow> py_error + visits_row list" where
  "get_doxy_visits doxy_df =
     (if doxy_df = [] then Inl (KeyError [''Provider name''])
      else Inr (api_get_doxy_visits
                  (filter (\<lambda>r. \<not> should_exclude_name (Provider_name r)) doxy_df)))"

section \<open>Booking summary\<close>

record booking =
  Booking_page :: cell
  All_activities :: int
  Scheduled :: int
  Completed :: int
  Canceled :: int
  No_show :: int

record oncehub_row =
  oncehub_Provider :: cell
  oncehub_Total_Activities :: int
  oncehub_Scheduled :: int
  oncehub_Completed :: int
  oncehub_Canceled :: int
  oncehub_No_show :: int

text \<open>
  \<^verbatim>\<open>re.sub(r'\s*\([^)]*\)', '', s)\<close>: from the leftmost position where a run of
  white space is followed by an opening parenthesis that is closed later, everything
  up to the first closing parenthesis goes; the search goes on behind it.
\<close>

function remove_parens :: "string \<Rightarrow> string" where
  "remove_parens [] = []"
| "remove_parens (c # cs) =
     (case dropWhile is_space (c # cs) of
        [] \<Rightarrow> c # remove_parens cs
      | p # t \<Rightarrow>
          if p = CHR ''('' \<and> CHR '')'' \<in> set t
          then remove_parens (tl (dropWhile (\<lambda>x. x \<noteq> CHR '')'') t))
          else c # remove_parens cs)"
  by pat_completeness auto
termination
proof (relation "measure length")
  show "wf (measure length)" by simp
next
  fix c :: char and cs :: string show "(cs, c # cs) \<in> measure length" by simp
next
  fix c :: char and cs p t
  assume a: "dropWhile is_space (c # cs) = p # t"
  have "length (p # t) \<le> length (c # cs)"
    using length_dropWhile_le [of is_space "c # cs"] a by simp
  moreover have "length (tl (dropWhile (\<lambda>x. x \<noteq> CHR '')'') t)) \<le> length t"
    using length_dropWhile_le [of "\<lambda>x. x \<noteq> CHR '')''" t] by simp
  ultimately show "(tl (dropWhile (\<lambda>x. x \<noteq> CHR '')'') t), c # cs) \<in> measure length"
    by simp
next
  fix c :: char and cs :: string show "(cs, c # cs) \<in> measure length" by simp
qed

definition booking_provider :: "cell \<Rightarrow> cell" where
  "booking_provider page = map_option (\<lambda>s. strip (remove_parens s)) page"

definition oncehub_of :: "booking \<Rightarrow> oncehub_row" where
  "oncehub_of b =
     \<lparr>oncehub_Provider = booking_provider (Booking_page b),
      oncehub_Total_Activities = All_activities b,
      oncehub_Scheduled = Scheduled b,
      oncehub_Completed = Completed b,
      oncehub_Canceled = Canceled b,
      oncehub_No_show = No_show b\<rparr>"

text \<open>
  \<^verbatim>\<open>get_oncehub_visits\<close>, for a frame that has the six columns. The \<^verbatim>\<open>.str\<close>
  accessor of the first statement raises \<^verbatim>\<open>AttributeError\<close> on a column that holds
  no text: a column with rows in which every cell is missing is a column of floats.
\<close>

definition no_text :: "booking list \<Rightarrow> bool" where
  "no_text booking_df = (booking_df \<noteq> [] \<and> list_all (\<lambda>b. Booking_page b = None) booking_df)"

definition oncehub_labels :: "string list" where
  "oncehub_labels =
     [''Provider'', ''All activities'', ''Scheduled'', ''Completed'', ''Canceled'', ''No-show'']"

text \<open>api/index.py: derive the label, select and rename the columns, sort.\<close>

definition api_get_oncehub_visits :: "booking list \<Rightarrow> py_error + oncehub_row list" where
  "api_get_oncehub_visits booking_df =
     (if no_text booking_df then Inl AttributeError
      else Inr (sort_values_desc oncehub_Total_Activities (map oncehub_of booking_df)))"

text \<open>app.py: the exclusion filter on the derived label stands between the first two
  statements; on a frame without rows it leaves no column for the selection.\<close>

definition get_oncehub_visits :: "booking list \<Rightarrow> py_error + oncehub_row list" where
  "get_oncehub_visits booking_df =
     (if no_text booking_df then Inl AttributeError
      else if booking_df = [] then Inl (KeyError oncehub_labels)
      else Inr (sort_values_desc oncehub_Total_Activities
                  (filter (\<lambda>r. \<not> should_exclude_name (oncehub_Provider r))
                     (map oncehub_of booking_df))))"

section \<open>Account events\<close>

text \<open>
  The frame \<^verbatim>\<open>df\<close> of \<^verbatim>\<open>get_visits_by_program\<close> with the columns Status, Provider
  and Event Type; the HTML and CSV readers that build it are library code.
\<close>

record program_event =
  Status :: cell
  Provider :: cell
  Event_Type :: cell

section \<open>What is left to the library\<close>

text \<open>
  Four answers of pandas are parameters of the model. The sum of a column of floats and
  the mean of a group depend, beyond one value, on the order in which the library adds
  and on whether it compensates the rounding errors. What the aggregation of the
  performance metrics and the pivot of the programs do with a frame in which no row
  belongs to a group (an exception, or an empty table) differs between versions of the
  library; each is given the frame that the function received.
\<close>

record pandas =
  sum_of :: "float64 list \<Rightarrow> float64"
  mean_of :: "float64 list \<Rightarrow> float64"
  agg_without_groups :: "visit list \<Rightarrow> py_error option"
  pivot_without_groups :: "program_event list \<Rightarrow> py_error option"

text \<open>\<^verbatim>\<open>Series.sum()\<close>: 0.0 for no value, the value itself for one.\<close>

definition Series_sum :: "pandas \<Rightarrow> float64 list \<Rightarrow> float64" where
  "Series_sum lib x = (case x of [] \<Rightarrow> Finite 0 | [v] \<Rightarrow> v | _ \<Rightarrow> sum_of lib x)"

text \<open>The aggregation \<^verbatim>\<open>'mean'\<close> of a group, which has at least one value.\<close>

definition group_mean :: "pandas \<Rightarrow> float64 list \<Rightarrow> float64" where
  "group_mean lib x = (case x of [v] \<Rightarrow> v | _ \<Rightarrow> mean_of lib x)"

text \<open>A library that adds from left to right without compensation and divides the sum
  by the number of values; it answers a frame without groups with an empty table.\<close>

definition left_to_right :: pandas where
  "left_to_right =
     \<lparr>sum_of = foldl float_add (Finite 0),
      mean_of = (\<lambda>x. float_over (foldl float_add (Finite 0) x) (of_nat (length x))),
      agg_without_groups = (\<lambda>df. None),
      pivot_without_groups = (\<lambda>df. None)\<rparr>"

section \<open>Program pivot\<close>

text \<open>
  \<^verbatim>\<open>get_visits_by_program\<close> from the point where \<^verbatim>\<open>df\<close> has been built. The pivot
  has one row per provider; a category that occurs for no provider has count 0 here,
  where pandas leaves the column out.
\<close>

datatype category = TRT | HRT | Other

definition get_category :: "cell \<Rightarrow> category" where
  "get_category event_type =
     (case event_type of
        None \<Rightarrow> Other
      | Some s \<Rightarrow>
          (let event_upper = upper s
           in if contains ''TRT'' event_upper \<or> contains ''FOUNTAINTRT'' event_upper then TRT
              else if contains ''HRT'' event_upper then HRT
              else Other))"

record program_row =
  program_Provider :: string
  TRT_count :: nat
  HRT_count :: nat
  Other_count :: nat
  Total :: nat

definition pivot_row :: "program_event list \<Rightarrow> string \<Rightarrow> program_row" where
  "pivot_row df k =
     (let mine = filter (\<lambda>r. Provider r = Some k) df;
          n = (\<lambda>c. length (filter (\<lambda>r. get_category (Event_Type r) = c) mine))
      in \<lparr>program_Provider = k, TRT_count = n TRT, HRT_count = n HRT, Other_count = n Other,
          Total = n TRT + n HRT + n Other\<rparr>)"

definition pivot_table :: "program_event list \<Rightarrow> program_row list" where
  "pivot_table df = sort_values_desc Total (map (pivot_row df) (group_keys (map Provider df)))"

text \<open>The statements from \<^verbatim>\<open>df['Category'] = ...\<close> on, for the frame \<open>rows\<close> that has
  its columns; \<open>df\<close> is the frame that the function received.\<close>

definition pivot_of :: "pandas \<Rightarrow> program_event list \<Rightarrow> program_event list
    \<Rightarrow> py_error + program_row list" where
  "pivot_of lib df rows =
     (if group_keys (map Provider rows) = []
      then (case pivot_without_groups lib df of Some e \<Rightarrow> Inl e | None \<Rightarrow> Inr [])
      else Inr (pivot_table rows))"

text \<open>api/index.py: the empty frame is answered at once; then the rows that are
  \<^verbatim>\<open>Completed\<close> are pivoted.\<close>

definition api_get_visits_by_program ::
  "pandas \<Rightarrow> program_event list \<Rightarrow> py_error + program_row list" where
  "api_get_visits_by_program lib df =
     (if df = [] then Inr []
      else pivot_of lib df (filter (\<lambda>r. Status r = Some ''Completed'') df))"

text \<open>
  app.py: the exclusion filter stands behind the filter on the status. When no row is
  \<^verbatim>\<open>Completed\<close> it works on a frame without rows: \<^verbatim>\<open>~\<close> raises \<^verbatim>\<open>TypeError\<close> on
  the empty column when the Provider column holds no text at all (a column of floats),
  otherwise no column is left and \<^verbatim>\<open>df['Event Type']\<close> raises.
\<close>

definition get_visits_by_program ::
  "pandas \<Rightarrow> program_event list \<Rightarrow> py_error + program_row list" where
  "get_visits_by_program lib df =
     (if df = [] then Inr []
      else (let completed = filter (\<lambda>r. Status r = Some ''Completed'') df
            in if completed = []
               then (if list_all (\<lambda>r. Provider r = None) df then Inl TypeError
                     else Inl (KeyError [''Event Type'']))
               else pivot_of lib df
                      (filter (\<lambda>r. \<not> should_exclude_name (Provider r)) completed)))"

section \<open>Payroll hours\<close>

text \<open>
  A row of the payroll frame after the positional renaming of its first four columns:
  \<open>Name\<close> is the raw cell, \<open>Total_hours\<close> is what
  \<^verbatim>\<open>pd.to_numeric(errors='coerce')\<close> makes of the cell, \<^term>\<open>None\<close> for NaN.
\<close>

record payroll =
  Name :: cell
  Total_hours :: "rat option"

record gusto_row =
  gusto_Name :: string
  gusto_Total_hours :: rat

text \<open>\<^verbatim>\<open>astype(str).str.strip().str.replace('"', '')\<close>; a missing cell becomes the
  text \<^verbatim>\<open>nan\<close>.\<close>

definition clean_name :: "cell \<Rightarrow> string" where
  "clean_name c =
     filter (\<lambda>x. x \<noteq> CHR 0x22) (strip (case c of None \<Rightarrow> ''nan'' | Some s \<Rightarrow> s))"

definition positive_hours :: "rat option \<Rightarrow> bool" where
  "positive_hours h = (case h of None \<Rightarrow> False | Some v \<Rightarrow> 0 < v)"

text \<open>The rows that match a provider of the visit log and have positive hours, with
  the cleaned name: \<^verbatim>\<open>filtered\<close> after \<^verbatim>\<open>filtered[filtered['Total hours'] > 0]\<close>.\<close>

definition matched_hours :: "payroll list \<Rightarrow> string list \<Rightarrow> (string \<times> rat option) list" where
  "matched_hours gusto_df doxy_providers =
     (let doxy_normalized = map (\<lambda>p. normalize_name (Some p)) doxy_providers;
          named = map (\<lambda>r. (clean_name (Name r), Total_hours r)) gusto_df;
          in_doxy = filter (\<lambda>(n, h). is_in_doxy doxy_normalized (normalize_name (Some n))) named
      in filter (\<lambda>(n, h). positive_hours h) in_doxy)"

definition gusto_table :: "(string \<times> rat option) list \<Rightarrow> gusto_row list" where
  "gusto_table filtered =
     sort_values_desc gusto_Total_hours
       (map (\<lambda>(n, h). \<lparr>gusto_Name = n, gusto_Total_hours = the h\<rparr>) filtered)"

text \<open>
  \<^verbatim>\<open>get_gusto_hours\<close> of api/index.py, for a frame that has the columns Name and
  Total hours. On a frame without rows the column \<^verbatim>\<open>In_Doxy\<close> is no Boolean mask,
  \<^verbatim>\<open>gusto_df[gusto_df['In_Doxy']]\<close> has no column and the selection of the two
  columns raises.
\<close>

definition api_get_gusto_hours :: "payroll list \<Rightarrow> string list \<Rightarrow> py_error + gusto_row list" where
  "api_get_gusto_hours gusto_df doxy_providers =
     (if gusto_df = [] then Inl (KeyError [''Name'', ''Total hours''])
      else Inr (gusto_table (matched_hours gusto_df doxy_providers)))"

text \<open>
  app.py: the exclusion filter comes last before the sorting. When no row has matched
  with positive hours it works on a frame without rows and leaves no column, so that
  \<^verbatim>\<open>sort_values('Total hours')\<close> raises.
\<close>

definition get_gusto_hours :: "payroll list \<Rightarrow> string list \<Rightarrow> py_error + gusto_row list" where
  "get_gusto_hours gusto_df doxy_providers =
     (if gusto_df = [] then Inl (KeyError [''Name'', ''Total hours''])
      else (let filtered = matched_hours gusto_df doxy_providers
            in if filtered = [] then Inl (KeyError [''Total hours''])
               else Inr (gusto_table
                           (filter (\<lambda>(n, h). \<not> should_exclude_name (Some n)) filtered))))"

section \<open>Duration performance metrics\<close>

record metrics_row =
  metrics_Provider :: string
  metrics_Total_Visits :: nat
  Visits_Over_20_Min :: nat
  Pct_Over_20_Min :: float64
  Hours_Over_20_Min :: float64
  Avg_Duration_Min :: float64

text \<open>\<^verbatim>\<open>doxy_df['Duration'].apply(parse_duration_to_minutes)\<close>: the rows in their
  order, each with its provider and its minutes; the first exception ends it.\<close>

fun Duration_Minutes :: "visit list \<Rightarrow> py_error + (cell \<times> float64 option) list" where
  "Duration_Minutes [] = Inr []"
| "Duration_Minutes (r # rs) =
     (case parse_duration_to_minutes (Duration r) of
        Inl e \<Rightarrow> Inl e
      | Inr m \<Rightarrow>
          (case Duration_Minutes rs of
             Inl e \<Rightarrow> Inl e
           | Inr ms \<Rightarrow> Inr ((Provider_name r, m) # ms)))"

text \<open>\<^verbatim>\<open>df_valid\<close>: the rows whose duration is a value.\<close>

definition df_valid :: "(cell \<times> float64 option) list \<Rightarrow> (cell \<times> float64) list" where
  "df_valid rows = List.map_filter (\<lambda>(p, m). map_option (\<lambda>d. (p, d)) m) rows"

text \<open>The aggregate of one group, followed by the three roundings. The two counts are
  integers, their quotient is a float.\<close>

definition metrics_of :: "pandas \<Rightarrow> (cell \<times> float64) list \<Rightarrow> string \<Rightarrow> metrics_row" where
  "metrics_of lib valid k =
     (let x = map snd (filter (\<lambda>(p, d). p = Some k) valid);
          total = length x;
          over = length (filter (\<lambda>d. float_gt d 20) x);
          hours = float_over (Series_sum lib (filter (\<lambda>d. float_gt d 20) x)) 60;
          avg = group_mean lib x
      in \<lparr>metrics_Provider = k,
          metrics_Total_Visits = total,
          Visits_Over_20_Min = over,
          Pct_Over_20_Min = np_round 1 (float_times (to_float64 (of_nat over / of_nat total)) 100),
          Hours_Over_20_Min = np_round 2 hours,
          Avg_Duration_Min = np_round 2 avg\<rparr>)"

text \<open>The statements from \<^verbatim>\<open>doxy_df['Duration_Minutes'] = ...\<close> on, for the frame
  \<open>rows\<close> that has its columns; \<open>doxy_df\<close> is the frame that the function received.\<close>

definition metrics_table :: "pandas \<Rightarrow> visit list \<Rightarrow> visit list \<Rightarrow> py_error + metrics_row list" where
  "metrics_table lib doxy_df rows =
     (case Duration_Minutes rows of
        Inl e \<Rightarrow> Inl e
      | Inr minutes \<Rightarrow>
          (let valid = df_valid minutes
           in if group_keys (map fst valid) = []
              then (case agg_without_groups lib doxy_df of Some e \<Rightarrow> Inl e | None \<Rightarrow> Inr [])
              else Inr (sort_values_desc metrics_Total_Visits
                          (map (metrics_of lib valid) (group_keys (map fst valid))))))"

text \<open>\<^verbatim>\<open>get_doxy_performance_metrics\<close> of api/index.py.\<close>

definition api_get_doxy_performance_metrics ::
  "pandas \<Rightarrow> visit list \<Rightarrow> py_error + metrics_row list" where
  "api_get_doxy_performance_metrics lib doxy_df = metrics_table lib doxy_df doxy_df"

text \<open>app.py: the exclusion filter comes first. On a frame without rows it leaves no
  column and \<^verbatim>\<open>doxy_df['Duration']\<close> raises.\<close>

definition get_doxy_performance_metrics ::
  "pandas \<Rightarrow> visit list \<Rightarrow> py_error + metrics_row list" where
  "get_doxy_performance_metrics lib doxy_df =
     (if doxy_df = [] then Inl (KeyError [''Duration''])
      else metrics_table lib doxy_df
             (filter (\<lambda>r. \<not> should_exclude_name (Provider_name r)) doxy_df))"

section \<open>Reconciler\<close>

record hours_row =
  hours_Provider :: string
  Gusto_Hours :: rat
  hours_Total_Visits :: nat
  Hours_Worked :: rat

text \<open>\<^verbatim>\<open>pd.merge(left, right, on=key, how='inner')\<close>, each row given with its key:
  every pair of a left and a right row with equal keys, in the order of the left
  rows.\<close>

fun merge_inner :: "('a \<times> 'k) list \<Rightarrow> ('b \<times> 'k) list \<Rightarrow> ('a \<times> 'b) list" where
  "merge_inner [] right = []"
| "merge_inner ((a, k) # left) right =
     map (\<lambda>(b, k'). (a, b)) (filter (\<lambda>(b, k'). k' = k) right) @ merge_inner left right"

text \<open>\<^verbatim>\<open>get_hours_worked\<close> (the same text in both source files).\<close>

definition get_hours_worked :: "gusto_row list \<Rightarrow> metrics_row list \<Rightarrow> hours_row list" where
  "get_hours_worked gusto_hours performance_metrics =
     (let gusto = map (\<lambda>g. (g, hw_normalize_name (Some (gusto_Name g)))) gusto_hours;
          metrics = map (\<lambda>m. (m, hw_normalize_name (Some (metrics_Provider m)))) performance_metrics;
          merged = merge_inner gusto metrics;
          result = map (\<lambda>(g, m). \<lparr>hours_Provider = gusto_Name g,
                                   Gusto_Hours = gusto_Total_hours g,
                                   hours_Total_Visits = metrics_Total_Visits m,
                                   Hours_Worked = round_dp 2 (of_nat (metrics_Total_Visits m) * 20 / 60)\<rparr>)
                       merged
      in sort_values_desc Gusto_Hours result)"

subsection \<open>The performance table as the specification words it\<close>

text \<open>The durations, in minutes, of the visits of provider \<open>k\<close> whose duration parses
  to a value.\<close>

definition parsed_durations :: "visit list \<Rightarrow> string \<Rightarrow> float64 list" where
  "parsed_durations visits k =
     List.map_filter
       (\<lambda>r. case parse_duration_to_minutes (Duration r) of Inr (Some d) \<Rightarrow> Some d | _ \<Rightarrow> None)
       (filter (\<lambda>r. Provider_name r = Some k) visits)"

text \<open>
  One row for each provider that has a visit with a parsed duration; in the row, over
  these durations: their number, the number and the total hours (sum over 60, to 2
  decimals) of those above 20 minutes, the mean to 2 decimals and the percentage above
  20 minutes to 1 decimal; rows in descending order of the number of visits.
\<close>

definition performance_spec :: "pandas \<Rightarrow> visit list \<Rightarrow> metrics_row list \<Rightarrow> bool" where
  "performance_spec lib visits table \<longleftrightarrow>
     distinct (map metrics_Provider table) \<and>
     set (map metrics_Provider table) =
       {k. \<exists>r\<in>set visits. Provider_name r = Some k \<and>
              (\<exists>d. parse_duration_to_minutes (Duration r) = Inr (Some d))} \<and>
     (\<forall>row\<in>set table.
        let x = parsed_durations visits (metrics_Provider row);
            over = filter (\<lambda>d. float_gt d 20) x
        in metrics_Total_Visits row = length x \<and>
           Visits_Over_20_Min row = length over \<and>
           Hours_Over_20_Min row = np_round 2 (float_over (Series_sum lib over) 60) \<and>
           Avg_Duration_Min row = np_round 2 (group_mean lib x) \<and>
           Pct_Over_20_Min row =
             np_round 1 (float_times (to_float64 (of_nat (length over) / of_nat (length x))) 100)) \<and>
     sorted (rev (map metrics_Total_Visits table))"

section \<open>Report generation\<close>

text \<open>
  \<^verbatim>\<open>generate_report\<close> of app.py. What the library does with an uploaded file is an
  input of the model: for each of the three tabular sources, either the message of the
  exception that \<^verbatim>\<open>read_file_as_dataframe\<close> raised or the frame it returned, with
  its column names; for the account report, the bytes together with the answers of the
  three codecs that can fail and the frame that the HTML or CSV reader builds from the
  decoded text. The workbook is the record of its sheets; writing it to bytes is left
  out.
\<close>

type_synonym bytes = "char list"
type_synonym py_text = "nat list"

record 'r frame =
  frame_columns :: "string list"
  frame_rows :: "'r list"

record account_file =
  file_bytes :: bytes
  account_is_csv :: bool
  as_utf_16 :: "py_text option"
  as_utf_8 :: "py_text option"
  as_cp1252 :: "py_text option"
  account_frame :: "py_error + program_event list"

record report =
  Doxy_Visits :: "visits_row list"
  OnceHub_Visits :: "oncehub_row list option"
  Visits_by_Program :: "program_row list"
  Gusto_Hours_sheet :: "gusto_row list"
  Doxy_Performance_Metrics :: "metrics_row list"
  Hours_Worked_sheet :: "hours_row list"
  stats_providers :: nat
  stats_total_visits :: nat
  stats_sheets :: nat

text \<open>\<^verbatim>\<open>bytes.decode('latin-1')\<close>: every byte is the code point of the same number.\<close>

definition latin_1 :: "bytes \<Rightarrow> py_text option" where
  "latin_1 b = Some (map of_char b)"

text \<open>The loop over the encodings: the first decoding that does not raise
  \<^verbatim>\<open>UnicodeError\<close> is kept.\<close>

fun decode_first :: "py_text option list \<Rightarrow> py_text option" where
  "decode_first [] = None"
| "decode_first (d # ds) = (case d of Some s \<Rightarrow> Some s | None \<Rightarrow> decode_first ds)"

definition decode_account :: "account_file \<Rightarrow> py_text option" where
  "decode_account f = decode_first [as_utf_16 f, as_utf_8 f, latin_1 (file_bytes f), as_cp1252 f]"

text \<open>The messages collected while the three required sources are read.\<close>

definition doxy_errors :: "string + visit frame \<Rightarrow> string list" where
  "doxy_errors doxy =
     (case doxy of
        Inl e \<Rightarrow> [''Error reading Doxy Report: '' @ e]
      | Inr doxy_df \<Rightarrow>
          (if ''Provider name'' \<notin> set (frame_columns doxy_df)
           then [''Doxy Report missing 'Provider name' column''] else []) @
          (if ''Duration'' \<notin> set (frame_columns doxy_df)
           then [''Doxy Report missing 'Duration' column''] else []))"

definition account_errors :: "account_file \<Rightarrow> string list" where
  "account_errors f =
     (if decode_account f = None
      then [''Could not decode Account Detail Report - try a different file format'']
      else [])"

definition gusto_errors :: "string + payroll frame \<Rightarrow> string list" where
  "gusto_errors gusto =
     (case gusto of
        Inl e \<Rightarrow> [''Error reading Gusto file: '' @ e]
      | Inr gusto_df \<Rightarrow> [])"

text \<open>
  The booking summary: \<^term>\<open>None\<close> on the outside when no file was supplied. Inside
  the \<^verbatim>\<open>try\<close> the first column whose lower-cased name contains one of four words is
  renamed to \<^verbatim>\<open>Booking page\<close>, else the first column is; a frame without columns
  raises \<^verbatim>\<open>IndexError\<close> there. Every exception of the block leaves
  \<^verbatim>\<open>booking_df = None\<close>.
\<close>

definition rename_column :: "string \<Rightarrow> string \<Rightarrow> string list \<Rightarrow> string list" where
  "rename_column old new cols = map (\<lambda>c. if c = old then new else c) cols"

definition booking_col_of :: "string list \<Rightarrow> string option" where
  "booking_col_of cols =
     find (\<lambda>col. let col_lower = lower col
                 in contains ''booking'' col_lower \<or> contains ''page'' col_lower \<or>
                    contains ''provider'' col_lower \<or> contains ''name'' col_lower) cols"

definition booking_columns :: "string list \<Rightarrow> string list option" where
  "booking_columns cols =
     (let first_renamed =
            (if ''Booking page'' \<notin> set cols
             then (case cols of
                     [] \<Rightarrow> None
                   | c0 # rest \<Rightarrow> Some (rename_column c0 ''Booking page'' cols))
             else Some cols)
      in case booking_col_of cols of
           None \<Rightarrow> first_renamed
         | Some booking_col \<Rightarrow>
             if booking_col \<noteq> [] \<and> booking_col \<noteq> ''Booking page''
             then Some (rename_column booking_col ''Booking page'' cols)
             else first_renamed)"

definition read_booking :: "(string + booking frame) option \<Rightarrow> booking frame option" where
  "read_booking booking =
     (case booking of
        None \<Rightarrow> None
      | Some (Inl e) \<Rightarrow> None
      | Some (Inr booking_df) \<Rightarrow>
          (case booking_columns (frame_columns booking_df) of
             None \<Rightarrow> None
           | Some cols \<Rightarrow> Some (booking_df\<lparr>frame_columns := cols\<rparr>)))"

text \<open>
  The aggregators on frames. A column that the function reads and the frame does not
  have raises \<^verbatim>\<open>KeyError\<close>, given with the labels that were not found. The
  readers give a frame distinct labels, but the renamings of this program can make two
  columns of one label; \<^verbatim>\<open>df[label]\<close> is then a frame, which has no \<^verbatim>\<open>.str\<close>
  (\<^verbatim>\<open>AttributeError\<close>) and which \<^verbatim>\<open>pd.to_numeric\<close> refuses (\<^verbatim>\<open>TypeError\<close>).
\<close>

definition missing_labels :: "string list \<Rightarrow> string list \<Rightarrow> string list" where
  "missing_labels needed cols = filter (\<lambda>c. c \<notin> set cols) needed"

definition twice :: "string \<Rightarrow> string list \<Rightarrow> bool" where
  "twice label cols = (1 < length (filter (\<lambda>c. c = label) cols))"

definition frame_oncehub_visits :: "booking frame \<Rightarrow> py_error + oncehub_row list" where
  "frame_oncehub_visits booking_df =
     (let cols = frame_columns booking_df
      in if ''Booking page'' \<notin> set cols then Inl (KeyError [''Booking page''])
         else if twice ''Booking page'' cols then Inl AttributeError
         else (case get_oncehub_visits (frame_rows booking_df) of
                 Inl e \<Rightarrow> Inl e
               | Inr result \<Rightarrow>
                   (case missing_labels [''All activities'', ''Scheduled'', ''Completed'',
                                         ''Canceled'', ''No-show''] cols of
                      [] \<Rightarrow> Inr result
                    | c # cs \<Rightarrow> Inl (KeyError (c # cs)))))"

definition gusto_columns :: "string list \<Rightarrow> string list" where
  "gusto_columns cols =
     (if 4 \<le> length cols then [''Name'', ''Title'', ''Manager'', ''Total hours''] @ drop 4 cols
      else cols)"

definition frame_gusto_hours :: "payroll frame \<Rightarrow> string list \<Rightarrow> py_error + gusto_row list" where
  "frame_gusto_hours gusto_df doxy_providers =
     (let cols = gusto_columns (frame_columns gusto_df)
      in if ''Name'' \<notin> set cols then Inl (KeyError [''Name''])
         else if twice ''Name'' cols then Inl AttributeError
         else if frame_rows gusto_df = [] then Inl (KeyError [''Name'', ''Total hours''])
         else if ''Total hours'' \<notin> set cols then Inl (KeyError [''Total hours''])
         else if twice ''Total hours'' cols then Inl TypeError
         else get_gusto_hours (frame_rows gusto_df) doxy_providers)"

definition frame_visits_by_program :: "pandas \<Rightarrow> account_file \<Rightarrow> py_error + program_row list" where
  "frame_visits_by_program lib f =
     (case account_frame f of
        Inl e \<Rightarrow> Inl e
      | Inr df \<Rightarrow> get_visits_by_program lib df)"

text \<open>
  The part of \<^verbatim>\<open>generate_report\<close> below \<^verbatim>\<open>Generate all sections\<close>. The first
  component of the result lists the aggregators that were called, in order, the
  second is the exception that ended the run or the report.
\<close>

definition generate_sections ::
  "pandas \<Rightarrow> visit list \<Rightarrow> account_file \<Rightarrow> payroll frame \<Rightarrow> booking frame option
     \<Rightarrow> string list \<times> (py_error + report)" where
  "generate_sections lib doxy_df account gusto_df booking_df =
     (let log1 = [''get_doxy_visits''];
          log2 = log1 @ (case booking_df of None \<Rightarrow> [] | Some b \<Rightarrow> [''get_oncehub_visits'']);
          log3 = log2 @ [''get_visits_by_program''];
          log4 = log3 @ [''get_gusto_hours''];
          log5 = log4 @ [''get_doxy_performance_metrics''];
          log6 = log5 @ [''get_hours_worked'']
      in case get_doxy_visits doxy_df of
           Inl e \<Rightarrow> (log1, Inl e)
         | Inr doxy_visits \<Rightarrow>
      (case (case booking_df of
               None \<Rightarrow> Inr None
             | Some b \<Rightarrow> map_sum (\<lambda>e. e) Some (frame_oncehub_visits b)) of
         Inl e \<Rightarrow> (log2, Inl e)
       | Inr oncehub_visits \<Rightarrow>
      (case frame_visits_by_program lib account of
         Inl e \<Rightarrow> (log3, Inl e)
       | Inr visits_by_program \<Rightarrow>
      (case frame_gusto_hours gusto_df (map visits_Provider_name doxy_visits) of
         Inl e \<Rightarrow> (log4, Inl e)
       | Inr gusto_hours \<Rightarrow>
      (case get_doxy_performance_metrics lib doxy_df of
         Inl e \<Rightarrow> (log5, Inl e)
       | Inr performance_metrics \<Rightarrow>
           (log6,
            Inr \<lparr>Doxy_Visits = doxy_visits,
                 OnceHub_Visits = oncehub_visits,
                 Visits_by_Program = visits_by_program,
                 Gusto_Hours_sheet = gusto_hours,
                 Doxy_Performance_Metrics = performance_metrics,
                 Hours_Worked_sheet = get_hours_worked gusto_hours performance_metrics,
                 stats_providers = length doxy_visits,
                 stats_total_visits = sum_list (map Total_Visits doxy_visits),
                 stats_sheets = 6\<rparr>))))))"

definition read_errors ::
  "string + visit frame \<Rightarrow> account_file \<Rightarrow> string + payroll frame \<Rightarrow> string list" where
  "read_errors doxy account gusto = doxy_errors doxy @ account_errors account @ gusto_errors gusto"

definition generate_report ::
  "pandas \<Rightarrow> string + visit frame \<Rightarrow> account_file \<Rightarrow> string + payroll frame
     \<Rightarrow> (string + booking frame) option \<Rightarrow> string list \<times> (py_error + report)" where
  "generate_report lib doxy account gusto booking =
     (let errors = read_errors doxy account gusto;
          booking_df = read_booking booking
      in if errors \<noteq> [] then ([], Inl (ValueError errors))
         else (case (doxy, gusto) of
                 (Inr doxy_df, Inr gusto_df) \<Rightarrow>
                   generate_sections lib (frame_rows doxy_df) account gusto_df booking_df
               | _ \<Rightarrow> ([], Inl (ValueError errors))))"

section \<open>Properties of the duration parser\<close>

text \<open>The threshold as a numeral, for evaluation.\<close>

lemma overflow_threshold_code [code]:
  "overflow_threshold =
     179769313486231580793728971405303415079934132710037826936173778980444968292764750946649017977587207096330286416692887910946555547851940402630657488671505820681908902000708383676273854845817711531764475730270069855571366959622842914819860834936475292719074168444365510704342711559699508093042880177904174497792"
  by (simp add: overflow_threshold_def)

lemma split_on_ne: "split_on d s \<noteq> []"
  by (induction s) (auto split: list.splits)

lemma split_on_no_sep: "d \<notin> set a \<Longrightarrow> split_on d a = [a]"
  by (induction a) (auto split: list.splits)

lemma split_on_field: "d \<notin> set a \<Longrightarrow> split_on d (a @ d # rest) = a # split_on d rest"
  by (induction a) (auto split: list.splits simp: split_on_ne)

lemma split_on_fields_free: "p \<in> set (split_on d s) \<Longrightarrow> d \<notin> set p"
  by (induction s arbitrary: p) (auto split: list.splits if_splits)

lemma split_on_three:
  "split_on d s = [a, b, c] \<Longrightarrow> s = a @ d # b @ d # c"
proof (induction s arbitrary: a)
  case Nil then show ?case by simp
next
  case (Cons x xs)
  show ?case
  proof (cases "x = d")
    case True
    with Cons.prems have a: "a = []" and r: "split_on d xs = [b, c]" by auto
    have "xs = b @ d # c" using r
    proof (induction xs arbitrary: b)
      case Nil then show ?case by simp
    next
      case (Cons y ys)
      show ?case
      proof (cases "y = d")
        case True
        with Cons.prems have "b = []" "split_on d ys = [c]" by auto
        moreover have "ys = c" using \<open>split_on d ys = [c]\<close>
          by (induction ys arbitrary: c) (auto split: list.splits if_splits simp: split_on_ne)
        ultimately show ?thesis using True by simp
      next
        case False
        with Cons.prems obtain b' where "b = y # b'" "split_on d ys = [b', c]"
          by (auto split: list.splits)
        with Cons.IH show ?thesis by simp
      qed
    qed
    with a True show ?thesis by simp
  next
    case False
    with Cons.prems obtain a' where "a = x # a'" "split_on d xs = [a', b, c]"
      by (auto split: list.splits)
    with Cons.IH show ?thesis by simp
  qed
qed

lemma mem_dropWhile: "x \<in> set s \<Longrightarrow> \<not> P x \<Longrightarrow> x \<in> set (dropWhile P s)"
  by (induction s) auto

lemma py_digits_chars: "py_digits acc s = Some n \<Longrightarrow> c \<in> set s \<Longrightarrow> is_digit c \<or> c = CHR ''_''"
  by (induction acc s rule: py_digits.induct) (auto split: if_splits)

lemma py_unsigned_chars: "py_unsigned s = Some n \<Longrightarrow> c \<in> set s \<Longrightarrow> is_digit c \<or> c = CHR ''_''"
  by (auto simp: py_unsigned_def split: list.splits if_splits dest: py_digits_chars)

lemma colon_props: "\<not> is_digit CHR '':''" "\<not> is_c_space CHR '':''"
  by (simp_all add: is_digit_def is_c_space_def)

lemma py_int_no_colon: "py_int s = Some n \<Longrightarrow> CHR '':'' \<notin> set s"
proof
  assume a: "py_int s = Some n" and b: "CHR '':'' \<in> set s"
  have "CHR '':'' \<in> set (c_strip s)"
    unfolding c_strip_def using b by (simp add: mem_dropWhile colon_props)
  with a show False
    by (auto simp: py_int_def colon_props split: list.splits if_splits dest: py_unsigned_chars)
qed


lemma ne_by_mem: "x \<in> set s \<Longrightarrow> x \<notin> set t \<Longrightarrow> s \<noteq> t"
  by blast

lemma parse_duration_fields:
  assumes "py_int a = Some h" "py_int b = Some m" "py_int c = Some s"
  shows "parse_duration_to_minutes (Some (a @ '':'' @ b @ '':'' @ c)) = minutes_of h m s"
proof -
  have na: "CHR '':'' \<notin> set a" and nb: "CHR '':'' \<notin> set b" and nc: "CHR '':'' \<notin> set c"
    using assms by (auto dest: py_int_no_colon)
  have sp: "split_on CHR '':'' (a @ '':'' @ b @ '':'' @ c) = [a, b, c]"
    using na nb nc by (simp add: split_on_field split_on_no_sep)
  have "CHR '':'' \<in> set (a @ '':'' @ b @ '':'' @ c)" by simp
  moreover have "CHR '':'' \<notin> set ''No data''" by simp
  ultimately have ne1: "a @ '':'' @ b @ '':'' @ c \<noteq> ''No data''"
    by (rule ne_by_mem)
  have ne2: "a @ '':'' @ b @ '':'' @ c \<noteq> []" by simp
  note ne = ne1 ne2
  show ?thesis
    unfolding parse_duration_to_minutes_def using ne
    by (simp only: option.case if_False sp list.case assms simp_thms)
qed

lemma parse_duration_shape:
  "parse_duration_to_minutes x = Inr None \<or>
   (\<exists>a b c h m s. x = Some (a @ '':'' @ b @ '':'' @ c) \<and> py_int a = Some h \<and>
      py_int b = Some m \<and> py_int c = Some s)"
proof (cases "parse_duration_to_minutes x = Inr None")
  case True then show ?thesis by simp
next
  case False
  then obtain t where x: "x = Some t"
    by (cases x) (auto simp: parse_duration_to_minutes_def)
  from False x obtain a b c where sp: "split_on CHR '':'' t = [a, b, c]"
    by (auto simp: parse_duration_to_minutes_def split: if_splits list.splits)
  from False x sp obtain h m s where
    "py_int a = Some h" "py_int b = Some m" "py_int c = Some s"
    by (auto simp: parse_duration_to_minutes_def split: if_splits option.splits)
  moreover have "t = a @ '':'' @ b @ '':'' @ c"
    using split_on_three[OF sp] by simp
  ultimately show ?thesis using x by blast
qed

lemma minutes_of_cases:
  "minutes_of h m s =
     (if overflow_threshold \<le> \<bar>of_int s / 60\<bar> \<or> overflow_threshold \<le> \<bar>of_int (h * 60 + m)\<bar>
      then Inl OverflowError
      else Inr (Some (to_float64 (nearest_double (of_int (h * 60 + m)) + nearest_double (of_int s / 60)))))"
  by (simp add: minutes_of_def int_truediv_def float_of_int_def)

text \<open>
  What the parser does on every input. It gives no value exactly when the token is not
  made of three colon-separated fields that \<^verbatim>\<open>int\<close> accepts. On three such
  fields it returns the float of \<open>hours * 60 + minutes + seconds / 60\<close> as long as the
  quotient and the integer on the left are in the range of a double, and raises
  \<^verbatim>\<open>OverflowError\<close> otherwise.
\<close>

lemma parse_duration_to_minutes_cases:
  "(parse_duration_to_minutes x = Inr None \<longleftrightarrow>
      \<not> (\<exists>a b c h m s. x = Some (a @ '':'' @ b @ '':'' @ c) \<and> py_int a = Some h \<and>
           py_int b = Some m \<and> py_int c = Some s))
   \<and> (py_int a = Some h \<and> py_int b = Some m \<and> py_int c = Some s \<longrightarrow>
        parse_duration_to_minutes (Some (a @ '':'' @ b @ '':'' @ c)) =
          (if overflow_threshold \<le> \<bar>of_int s / 60\<bar> \<or>
              overflow_threshold \<le> \<bar>of_int (h * 60 + m)\<bar>
           then Inl OverflowError
           else Inr (Some (to_float64 (nearest_double (of_int (h * 60 + m)) +
                                        nearest_double (of_int s / 60))))))"
proof (intro conjI impI iffI notI)
  assume n: "parse_duration_to_minutes x = Inr None"
  assume "\<exists>a b c h m s. x = Some (a @ '':'' @ b @ '':'' @ c) \<and> py_int a = Some h \<and>
           py_int b = Some m \<and> py_int c = Some s"
  then obtain a b c h m s where x: "x = Some (a @ '':'' @ b @ '':'' @ c)"
    and f: "py_int a = Some h" "py_int b = Some m" "py_int c = Some s" by blast
  have "parse_duration_to_minutes x = minutes_of h m s"
    unfolding x using f by (rule parse_duration_fields)
  with n show False by (simp add: minutes_of_cases split: if_splits)
next
  assume "\<not> (\<exists>a b c h m s. x = Some (a @ '':'' @ b @ '':'' @ c) \<and> py_int a = Some h \<and>
           py_int b = Some m \<and> py_int c = Some s)"
  then show "parse_duration_to_minutes x = Inr None"
    using parse_duration_shape [of x] by blast
next
  assume "py_int a = Some h \<and> py_int b = Some m \<and> py_int c = Some s"
  then have "py_int a = Some h" "py_int b = Some m" "py_int c = Some s" by simp_all
  then have "parse_duration_to_minutes (Some (a @ '':'' @ b @ '':'' @ c)) = minutes_of h m s"
    by (rule parse_duration_fields)
  then show "parse_duration_to_minutes (Some (a @ '':'' @ b @ '':'' @ c)) =
          (if overflow_threshold \<le> \<bar>of_int s / 60\<bar> \<or>
              overflow_threshold \<le> \<bar>of_int (h * 60 + m)\<bar>
           then Inl OverflowError
           else Inr (Some (to_float64 (nearest_double (of_int (h * 60 + m)) +
                                        nearest_double (of_int s / 60)))))"
    by (simp only: minutes_of_cases)
qed

text \<open>The examples of the specification: 62.05, 0 and no value.\<close>

lemma parse_duration_to_minutes_examples:
  "parse_duration_to_minutes None = Inr None
   \<and> parse_duration_to_minutes (Some []) = Inr None
   \<and> parse_duration_to_minutes (Some ''No data'') = Inr None
   \<and> parse_duration_to_minutes (Some ''01:02:03'') = Inr (Some (float_literal (6205 / 100)))
   \<and> parse_duration_to_minutes (Some ''00:00:00'') = Inr (Some (float_literal 0))
   \<and> parse_duration_to_minutes (Some ''1:2'') = Inr None"
proof -
  have e0: "parse_duration_to_minutes None = Inr None"
    and e1: "parse_duration_to_minutes (Some []) = Inr None"
    and e2: "parse_duration_to_minutes (Some ''No data'') = Inr None"
    by (simp_all add: parse_duration_to_minutes_def)
  have e3: "parse_duration_to_minutes (Some ''01:02:03'') = Inr (Some (float_literal (6205 / 100)))"
    by code_simp
  have e4: "parse_duration_to_minutes (Some ''00:00:00'') = Inr (Some (float_literal 0))"
    by code_simp
  have e5: "parse_duration_to_minutes (Some ''1:2'') = Inr None"
    by code_simp
  from e0 e1 e2 e3 e4 e5 show ?thesis by blast
qed

text \<open>
  Claim C6. The claim holds as long as the fields are in the range of a double. On three
  fields that \<^verbatim>\<open>int\<close> accepts, of which the last has 320 digits, the parser does not
  return \<open>hours * 60 + minutes + seconds / 60\<close>: the division raises
  \<^verbatim>\<open>OverflowError\<close>, which the \<^verbatim>\<open>except\<close> clause of the function, made to turn a
  bad token into no value, does not name.
\<close>

theorem parse_duration_to_minutes_overflow:
  "py_int ''0'' = Some 0
   \<and> py_int (replicate 320 CHR ''9'') = Some (10 ^ 320 - 1)
   \<and> parse_duration_to_minutes (Some (''0:0:'' @ replicate 320 CHR ''9'')) = Inl OverflowError"
  by code_simp

section \<open>Properties of the identity matcher\<close>

lemma is_in_doxy_loop_iff:
  "is_in_doxy_loop a ds \<longleftrightarrow>
     (\<exists>b\<in>set ds. a = b \<or> 2 \<le> card (set (split_ws a) \<inter> set (split_ws b)))"
  by (induction ds) auto

lemma split_ws_Nil: "split_ws [] = []"
  by (simp add: split_ws_def)

text \<open>
  Claim C5. For two normalized identities \<open>a\<close> (the payroll name tested) and \<open>b\<close>
  (a visit-provider name), the matcher answers true exactly when neither is empty and
  they are equal or their sets of white-space-delimited tokens share at least two
  tokens; against a collection of names it answers true exactly when some member
  matches in this sense.
\<close>

theorem is_in_doxy_spec:
  "(is_in_doxy [b] a \<longleftrightarrow>
      a \<noteq> [] \<and> b \<noteq> [] \<and> (a = b \<or> 2 \<le> card (set (split_ws a) \<inter> set (split_ws b))))
   \<and> (is_in_doxy ds a \<longleftrightarrow>
      a \<noteq> [] \<and> (\<exists>b\<in>set ds. b \<noteq> [] \<and> (a = b \<or> 2 \<le> card (set (split_ws a) \<inter> set (split_ws b)))))
   \<and> \<not> is_in_doxy ds []
   \<and> \<not> is_in_doxy [[]] a"
proof -
  have one: "is_in_doxy [b] a \<longleftrightarrow>
      a \<noteq> [] \<and> b \<noteq> [] \<and> (a = b \<or> 2 \<le> card (set (split_ws a) \<inter> set (split_ws b)))" for b
    by (auto simp: is_in_doxy_def split_ws_Nil)
  have many: "is_in_doxy ds a \<longleftrightarrow>
      a \<noteq> [] \<and> (\<exists>b\<in>set ds. b \<noteq> [] \<and> (a = b \<or> 2 \<le> card (set (split_ws a) \<inter> set (split_ws b))))"
  proof -
    have ne: "2 \<le> card (set (split_ws a) \<inter> set (split_ws b)) \<Longrightarrow> b \<noteq> []" for b
      by (auto simp: split_ws_Nil)
    show ?thesis
    proof (cases "a = []")
      case True
      then show ?thesis by (simp add: is_in_doxy_def)
    next
      case False
      then have "is_in_doxy ds a \<longleftrightarrow>
          (\<exists>b\<in>set ds. a = b \<or> 2 \<le> card (set (split_ws a) \<inter> set (split_ws b)))"
        by (simp add: is_in_doxy_def is_in_doxy_loop_iff)
      also have "\<dots> \<longleftrightarrow>
          (\<exists>b\<in>set ds. b \<noteq> [] \<and> (a = b \<or> 2 \<le> card (set (split_ws a) \<inter> set (split_ws b))))"
        using ne False by blast
      finally show ?thesis using False by simp
    qed
  qed
  have e1: "\<not> is_in_doxy ds []" by (simp add: is_in_doxy_def)
  have e2: "\<not> is_in_doxy [[]] a" using one [of "[]"] by simp
  from one many e1 e2 show ?thesis by blast
qed

theorem is_in_doxy_spec_witness:
  "is_in_doxy [''jane doe''] ''jane q doe'' \<and>
   ''jane q doe'' \<noteq> ''jane doe'' \<and>
   2 \<le> card (set (split_ws ''jane q doe'') \<inter> set (split_ws ''jane doe''))"
proof -
  have m: "is_in_doxy [''jane doe''] ''jane q doe''" by code_simp
  have n: "''jane q doe'' \<noteq> ''jane doe''" by simp
  from is_in_doxy_spec [of "''jane doe''" "''jane q doe''" "[]"] m n show ?thesis
    by blast
qed

section \<open>Properties of the entity normalizer\<close>

subsection \<open>Case folding and trimming\<close>

lemma is_space_lower_char [simp]: "is_space (lower_char c) = is_space c"
  unfolding is_space_def lower_char_def Let_def by (auto simp: )

lemma lower_char_idem [simp]: "lower_char (lower_char c) = lower_char c"
  unfolding lower_char_def Let_def by auto

lemma lower_idem [simp]: "lower (lower s) = lower s"
  by (simp add: lower_def)

lemma lower_Nil [simp]: "lower [] = []" by (simp add: lower_def)
lemma lower_eq_Nil [simp]: "lower s = [] \<longleftrightarrow> s = []" by (simp add: lower_def)
lemma length_lower [simp]: "length (lower s) = length s" by (simp add: lower_def)
lemma lower_append: "lower (a @ b) = lower a @ lower b" by (simp add: lower_def)
lemma lower_rev: "lower (rev a) = rev (lower a)" by (simp add: lower_def rev_map)

lemma dropWhile_space_lower: "dropWhile is_space (lower s) = lower (dropWhile is_space s)"
  by (induction s) (auto simp: lower_def)

lemma takeWhile_nspace_lower:
  "takeWhile (\<lambda>c. \<not> is_space c) (lower s) = lower (takeWhile (\<lambda>c. \<not> is_space c) s)"
  by (induction s) (auto simp: lower_def)

lemma dropWhile_nspace_lower:
  "dropWhile (\<lambda>c. \<not> is_space c) (lower s) = lower (dropWhile (\<lambda>c. \<not> is_space c) s)"
  by (induction s) (auto simp: lower_def)

lemma rstrip_lower: "rstrip (lower s) = lower (rstrip s)"
  by (simp add: rstrip_def lower_rev [symmetric] dropWhile_space_lower)

lemma strip_lower: "strip (lower s) = lower (strip s)"
  by (simp add: strip_def lstrip_def rstrip_lower dropWhile_space_lower)

lemma lf_space: "is_space (CHR 0x0A)"
  by (simp add: is_space_def)

lemma rstrip_last: "rstrip s = [] \<or> \<not> is_space (last (rstrip s))"
proof -
  have "dropWhile is_space (rev s) = [] \<or> \<not> is_space (hd (dropWhile is_space (rev s)))"
    using hd_dropWhile by blast
  then show ?thesis by (auto simp: rstrip_def last_rev)
qed

lemma rstrip_id: "s = [] \<or> \<not> is_space (last s) \<Longrightarrow> rstrip s = s"
  by (cases s rule: rev_cases) (auto simp: rstrip_def)

lemma rstrip_hd: "rstrip s \<noteq> [] \<Longrightarrow> hd (rstrip s) = hd s"
proof -
  assume a: "rstrip s \<noteq> []"
  have "s = rstrip s @ rev (takeWhile is_space (rev s))"
    unfolding rstrip_def by (metis rev_append rev_rev_ident takeWhile_dropWhile_id)
  then show ?thesis using a by (metis hd_append2)
qed

lemma rstrip_prefix: "\<exists>ws. s = rstrip s @ ws \<and> (\<forall>c\<in>set ws. is_space c)"
proof -
  have "s = rstrip s @ rev (takeWhile is_space (rev s))"
    unfolding rstrip_def by (metis rev_append rev_rev_ident takeWhile_dropWhile_id)
  moreover have "\<forall>c\<in>set (rev (takeWhile is_space (rev s))). is_space c"
    by (auto dest: set_takeWhileD)
  ultimately show ?thesis by blast
qed

lemma rstrip_Nil [simp]: "rstrip [] = []"
  by (simp add: rstrip_def)

lemma trimmed_strip: "trimmed (strip s)"
proof (cases "dropWhile is_space s = []")
  case True
  then have "strip s = []" unfolding strip_def lstrip_def by (simp only: rstrip_Nil)
  then show ?thesis by (simp add: trimmed_def)
next
  case False
  let ?l = "dropWhile is_space s"
  have h: "\<not> is_space (hd ?l)" using False hd_dropWhile by blast
  show ?thesis
    unfolding trimmed_def strip_def lstrip_def
    using rstrip_last [of ?l] rstrip_hd [of ?l] h by auto
qed

lemma strip_trimmed: "trimmed s \<Longrightarrow> strip s = s"
  unfolding trimmed_def strip_def lstrip_def
  by (cases s) (auto simp: rstrip_id)

lemma trimmed_lower: "trimmed s \<Longrightarrow> trimmed (lower s)"
  unfolding trimmed_def by (auto simp: lower_def hd_map last_map)

subsection \<open>The end-anchored substitutions\<close>

lemma re_sub_end_id:
  "\<not> re_search_end m t \<Longrightarrow> t = [] \<or> last t \<noteq> CHR 0x0A \<Longrightarrow> re_sub_end m t = t"
  by (induction t) (auto split: if_splits)

lemma re_sub_end_length: "length (re_sub_end m t) \<le> length t"
  by (induction t) auto

lemma re_sub_end_shorter:
  "re_search_end m t \<Longrightarrow> t = [] \<or> last t \<noteq> CHR 0x0A \<Longrightarrow> length (re_sub_end m t) < length t"
  by (induction t) (auto split: if_splits simp: less_Suc_eq_le re_sub_end_length)

lemma re_search_endD: "re_search_end m t \<Longrightarrow> \<exists>pre u. t = pre @ u \<and> u \<noteq> [] \<and> m u"
proof (induction t)
  case Nil then show ?case by simp
next
  case (Cons c cs)
  show ?case
  proof (cases "m (c # cs)")
    case True
    then have "c # cs = [] @ (c # cs) \<and> c # cs \<noteq> [] \<and> m (c # cs)" by simp
    then show ?thesis by blast
  next
    case False
    with Cons obtain pre u where "cs = pre @ u" "u \<noteq> []" "m u" by auto
    then have "c # cs = (c # pre) @ u \<and> u \<noteq> [] \<and> m u" by simp
    then show ?thesis by blast
  qed
qed

lemma re_search_end_set: "re_search_end m t \<Longrightarrow> \<exists>c cs. m (c # cs) \<and> c \<in> set t"
  by (induction t) auto

lemma credential_chars: "k \<in> set CREDENTIALS \<Longrightarrow> d \<in> set k \<Longrightarrow> \<not> is_space d"
  by (auto simp: CREDENTIALS_def is_space_def)

lemma credential_ne: "[] \<notin> set CREDENTIALS"
  by (simp add: CREDENTIALS_def)

lemma credential_no_space:
  assumes "lower r \<in> set CREDENTIALS"
  shows "r \<noteq> []" and "\<forall>c\<in>set r. \<not> is_space c"
proof -
  show "r \<noteq> []" using assms credential_ne by auto
  show "\<forall>c\<in>set r. \<not> is_space c"
  proof
    fix c assume "c \<in> set r"
    then have "lower_char c \<in> set (lower r)" by (simp add: lower_def)
    then have "\<not> is_space (lower_char c)" using assms credential_chars by blast
    then show "\<not> is_space c" by simp
  qed
qed

lemma dropWhile_spaces_word:
  assumes "\<forall>c\<in>set sp. is_space c" "\<forall>c\<in>set w. \<not> is_space c"
  shows "dropWhile is_space (sp @ w) = w"
proof -
  have "dropWhile is_space (sp @ w) = dropWhile is_space w"
    using assms(1) by (intro dropWhile_append2) auto
  also have "\<dots> = w" using assms(2) by (cases w) auto
  finally show ?thesis .
qed

lemma re_sub_end_credential_decomp:
  assumes ws: "ws \<noteq> []" "\<forall>c\<in>set ws. is_space c"
    and w: "lower w \<in> set CREDENTIALS"
    and body: "body = [] \<or> \<not> is_space (last body)"
  shows "re_sub_end credential_at (body @ ws @ w) = body"
  using body
proof (induction body)
  case Nil
  from ws obtain c ws' where c: "ws = c # ws'" by (cases ws) auto
  have "dropWhile is_space (ws' @ w) = w"
    using ws c credential_no_space [OF w] by (intro dropWhile_spaces_word) auto
  then have "credential_at (ws @ w)" using c ws w by (simp add: credential_at_def)
  then show ?case using c by simp
next
  case (Cons b body')
  have wne: "w \<noteq> []" and wns: "\<forall>c\<in>set w. \<not> is_space c"
    using credential_no_space [OF w] by auto
  have nolf: "last ((b # body') @ ws @ w) \<noteq> CHR 0x0A"
    using wne wns lf_space by (metis last_appendR last_in_set append_is_Nil_conv)
  have nomatch: "\<not> credential_at ((b # body') @ ws @ w)"
  proof
    assume m: "credential_at ((b # body') @ ws @ w)"
    then have sb: "is_space b" and cr: "lower (dropWhile is_space (body' @ ws @ w)) \<in> set CREDENTIALS"
      by (auto simp: credential_at_def)
    from sb Cons.prems have ne: "body' \<noteq> []" by auto
    with Cons.prems have "\<not> is_space (last body')" by auto
    moreover have "last body' \<in> set body'" using ne by simp
    ultimately have "dropWhile is_space (body' @ ws @ w) = dropWhile is_space body' @ ws @ w"
      by (meson dropWhile_append1)
    then have "hd ws \<in> set (dropWhile is_space (body' @ ws @ w))"
      using ws(1) by simp
    moreover have "is_space (hd ws)" using ws by simp
    ultimately show False using credential_no_space(2) [OF cr] by blast
  qed
  have tl: "body' = [] \<or> \<not> is_space (last body')" using Cons.prems by (auto split: if_splits)
  have "re_sub_end credential_at ((b # body') @ ws @ w) = b # re_sub_end credential_at (body' @ ws @ w)"
  proof -
    have "re_sub_end credential_at (b # (body' @ ws @ w)) = b # re_sub_end credential_at (body' @ ws @ w)"
      using nomatch nolf by (simp only: re_sub_end.simps append_Cons if_False simp_thms)
    then show ?thesis by simp
  qed
  then show ?case using Cons.IH [OF tl] by simp
qed

lemma last_word_split:
  "t = rev (dropWhile (\<lambda>c. \<not> is_space c) (rev t)) @ rev (takeWhile (\<lambda>c. \<not> is_space c) (rev t))"
  by (metis rev_append rev_rev_ident takeWhile_dropWhile_id)

lemma last_word_unique:
  assumes sp: "sp \<noteq> []" "is_space (last sp)" and r: "\<forall>c\<in>set r. \<not> is_space c"
  shows "rev (takeWhile (\<lambda>c. \<not> is_space c) (rev (sp @ r))) = r"
    and "rev (dropWhile (\<lambda>c. \<not> is_space c) (rev (sp @ r))) = sp"
proof -
  have hd: "rev sp \<noteq> [] \<and> \<not> (\<not> is_space (hd (rev sp)))"
    using sp by (simp add: hd_rev)
  have r': "\<forall>c\<in>set (rev r). \<not> is_space c" using r by simp
  have sph: "rev sp = hd (rev sp) # tl (rev sp)" using hd by simp
  have "takeWhile (\<lambda>c. \<not> is_space c) (rev r @ rev sp) = rev r @ takeWhile (\<lambda>c. \<not> is_space c) (rev sp)"
    using r' by (intro takeWhile_append2) auto
  also have "takeWhile (\<lambda>c. \<not> is_space c) (rev sp) = []"
    using hd by (simp add: takeWhile_eq_Nil_iff)
  finally have t: "takeWhile (\<lambda>c. \<not> is_space c) (rev r @ rev sp) = rev r" by simp
  have "dropWhile (\<lambda>c. \<not> is_space c) (rev r @ rev sp) = dropWhile (\<lambda>c. \<not> is_space c) (rev sp)"
    using r' by (intro dropWhile_append2) auto
  also have "\<dots> = rev sp"
    using hd by (simp add: dropWhile_eq_self_iff)
  finally have d: "dropWhile (\<lambda>c. \<not> is_space c) (rev r @ rev sp) = rev sp" .
  show "rev (takeWhile (\<lambda>c. \<not> is_space c) (rev (sp @ r))) = r" using t by simp
  show "rev (dropWhile (\<lambda>c. \<not> is_space c) (rev (sp @ r))) = sp" using d by simp
qed

lemma re_sub_end_credential:
  assumes t: "t = [] \<or> \<not> is_space (last t)"
  shows "re_sub_end credential_at t = strip_credential t"
proof -
  define w where "w = rev (takeWhile (\<lambda>c. \<not> is_space c) (rev t))"
  define front where "front = rev (dropWhile (\<lambda>c. \<not> is_space c) (rev t))"
  have tw: "t = front @ w" unfolding w_def front_def by (rule last_word_split)
  have sc: "strip_credential t = (if lower w \<in> set CREDENTIALS \<and> front \<noteq> [] then rstrip front else t)"
    unfolding strip_credential_def w_def front_def Let_def by simp
  show ?thesis
  proof (cases "lower w \<in> set CREDENTIALS \<and> front \<noteq> []")
    case True
    then have cw: "lower w \<in> set CREDENTIALS" and fne: "front \<noteq> []" by auto
    have "dropWhile (\<lambda>c. \<not> is_space c) (rev t) \<noteq> []" using fne by (simp add: front_def)
    then have "\<not> \<not> is_space (hd (dropWhile (\<lambda>c. \<not> is_space c) (rev t)))"
      using hd_dropWhile by blast
    then have lastsp: "is_space (last front)"
      using fne by (simp add: front_def last_rev)
    obtain ws where ws: "front = rstrip front @ ws" "\<forall>c\<in>set ws. is_space c"
      using rstrip_prefix by blast
    have wsne: "ws \<noteq> []"
    proof
      assume "ws = []"
      then have "rstrip front = front" using ws(1) by simp
      then show False using rstrip_last [of front] fne lastsp by simp
    qed
    have "re_sub_end credential_at (rstrip front @ ws @ w) = rstrip front"
      using wsne ws(2) cw rstrip_last [of front] by (rule re_sub_end_credential_decomp)
    moreover have "t = rstrip front @ ws @ w" using tw ws(1) by simp
    ultimately show ?thesis using sc True by simp
  next
    case False
    have "\<not> re_search_end credential_at t"
    proof
      assume "re_search_end credential_at t"
      then obtain pre u where u: "t = pre @ u" "u \<noteq> []" "credential_at u"
        using re_search_endD by blast
      then obtain c cs where cc: "u = c # cs" "is_space c"
        "lower (dropWhile is_space cs) \<in> set CREDENTIALS"
        by (cases u) (auto simp: credential_at_def)
      define r where "r = dropWhile is_space cs"
      define sp where "sp = pre @ c # takeWhile is_space cs"
      have rns: "\<forall>c\<in>set r. \<not> is_space c" using cc(3) credential_no_space r_def by blast
      have tsp: "t = sp @ r" unfolding sp_def r_def using u(1) cc(1) by simp
      have "is_space (last sp)"
        unfolding sp_def using cc(2)
        by (cases "takeWhile is_space cs = []") (auto dest: set_takeWhileD last_in_set)
      moreover have "sp \<noteq> []" by (simp add: sp_def)
      ultimately have "w = r" "front = sp"
        unfolding w_def front_def tsp using last_word_unique [OF _ _ rns] by auto
      then show False using False cc(3) \<open>sp \<noteq> []\<close> by (simp add: r_def)
    qed
    moreover have "t = [] \<or> last t \<noteq> CHR 0x0A" using t lf_space by auto
    ultimately have "re_sub_end credential_at t = t" by (rule re_sub_end_id)
    then show ?thesis using sc False by simp
  qed
qed

lemma set_rstrip: "set (rstrip x) \<subseteq> set x"
  unfolding rstrip_def using set_dropWhileD by fastforce

lemma strip_credential_subset: "set (strip_credential t) \<subseteq> set t"
proof -
  define front where "front = rev (dropWhile (\<lambda>c. \<not> is_space c) (rev t))"
  have "set front \<subseteq> set t"
    unfolding front_def using set_dropWhileD by fastforce
  then have "set (rstrip front) \<subseteq> set t" using set_rstrip by blast
  then show ?thesis unfolding strip_credential_def Let_def front_def by simp
qed

lemma strip_credential_trimmed: "trimmed t \<Longrightarrow> trimmed (strip_credential t)"
proof -
  assume tr: "trimmed t"
  define front where "front = rev (dropWhile (\<lambda>c. \<not> is_space c) (rev t))"
  have pre: "\<exists>w. t = front @ w" unfolding front_def using last_word_split by blast
  have "trimmed (rstrip front)"
  proof (cases "rstrip front = []")
    case True then show ?thesis by (simp add: trimmed_def)
  next
    case False
    then have "hd (rstrip front) = hd front" by (rule rstrip_hd)
    moreover have "front \<noteq> []" using False by auto
    then have "hd front = hd t" using pre by auto
    moreover have "t \<noteq> []" using pre \<open>front \<noteq> []\<close> by auto
    ultimately have "\<not> is_space (hd (rstrip front))" using tr by (simp add: trimmed_def)
    then show ?thesis using rstrip_last [of front] False by (simp add: trimmed_def)
  qed
  then show ?thesis using tr unfolding strip_credential_def Let_def front_def by simp
qed

lemma re_sub_end_comma_free:
  assumes "CHR '','' \<notin> set u" "u = [] \<or> \<not> is_space (last u)"
  shows "re_sub_end comma_np_at u = u"
proof -
  have "\<not> re_search_end comma_np_at u"
  proof
    assume "re_search_end comma_np_at u"
    then obtain c cs where "comma_np_at (c # cs)" "c \<in> set u"
      using re_search_end_set by blast
    then show False using assms(1) by (auto simp: comma_np_at_def)
  qed
  moreover have "u = [] \<or> last u \<noteq> CHR 0x0A" using assms(2) lf_space by auto
  ultimately show ?thesis by (rule re_sub_end_id)
qed

lemma lower_Cons: "lower (c # cs) = lower_char c # lower cs"
  by (simp add: lower_def)

lemma credential_at_lower: "credential_at (lower u) = credential_at u"
  by (cases u) (simp_all add: credential_at_def lower_Cons dropWhile_space_lower)

lemma of_char_lower_char:
  "(of_char (lower_char c) :: nat) =
     (if 65 \<le> (of_char c :: nat) \<and> (of_char c :: nat) \<le> 90 then of_char c + 32 else of_char c)"
  unfolding lower_char_def Let_def by simp

lemma comma_lower: "lower_char c = CHR '','' \<longleftrightarrow> c = CHR '',''"
proof
  assume "lower_char c = CHR '',''"
  then have "(of_char (lower_char c) :: nat) = of_char CHR '',''" by simp
  then have "(of_char c :: nat) = of_char CHR '',''"
    unfolding of_char_lower_char by (simp split: if_splits)
  then show "c = CHR '',''" by (simp only: of_char_eq_iff)
next
  assume "c = CHR '',''"
  then show "lower_char c = CHR '',''" by (simp add: lower_char_def)
qed

lemma comma_np_at_lower: "comma_np_at (lower u) = comma_np_at u"
  by (cases u) (simp_all add: comma_np_at_def lower_Cons dropWhile_space_lower comma_lower)

lemma lf_lower: "lower_char c = CHR 0x0A \<longleftrightarrow> c = CHR 0x0A"
proof
  assume "lower_char c = CHR 0x0A"
  then have "(of_char (lower_char c) :: nat) = of_char (CHR 0x0A)" by simp
  then have "(of_char c :: nat) = of_char (CHR 0x0A)"
    unfolding of_char_lower_char by (simp split: if_splits)
  then show "c = CHR 0x0A" by (simp only: of_char_eq_iff)
next
  assume "c = CHR 0x0A"
  then show "lower_char c = CHR 0x0A" by (simp add: lower_char_def)
qed

lemma re_sub_end_lower:
  assumes "\<And>u. m (lower u) = m u"
  shows "re_sub_end m (lower s) = lower (re_sub_end m s)"
proof (induction s)
  case Nil then show ?case by simp
next
  case (Cons c cs)
  have a: "m (lower_char c # lower cs) = m (c # cs)"
    using assms [of "c # cs"] by (simp add: lower_Cons)
  have b: "m (butlast (lower_char c # lower cs)) = m (butlast (c # cs))"
  proof -
    have "butlast (lower_char c # lower cs) = lower (butlast (c # cs))"
      unfolding lower_def by (simp only: map_butlast list.map)
    then show ?thesis using assms [of "butlast (c # cs)"] by simp
  qed
  have c: "last (lower_char c # lower cs) = CHR 0x0A \<longleftrightarrow> last (c # cs) = CHR 0x0A"
  proof -
    have "last (lower_char c # lower cs) = lower_char (last (c # cs))"
      unfolding lower_def by (metis last_map list.map(2) list.distinct(1))
    then show ?thesis using lf_lower [of "last (c # cs)"] by (simp only:)
  qed
  have lf: "lower_char (CHR 0x0A) = CHR 0x0A" by (simp add: lf_lower)
  show ?case
    unfolding lower_Cons re_sub_end.simps a b c
    by (simp add: lower_Cons Cons.IH lf del: last.simps butlast.simps)
qed

lemma hw_normalize_name_eq: "hw_normalize_name x = normalize_name x"
  by (cases x)
     (simp_all add: hw_normalize_name_def normalize_name_def Let_def re_sub_end_lower
        credential_at_lower comma_np_at_lower strip_lower)

lemma lower_np:
  assumes "lower w = ''np''"
  shows "length w = 2" and "\<forall>c\<in>set w. \<not> is_space c" and "CHR '','' \<notin> set w"
    and "w \<noteq> []" and "last w \<noteq> CHR 0x0A"
proof -
  show l: "length w = 2" using assms by (metis length_lower length_Cons list.size(3) numeral_2_eq_2)
  have mem: "c \<in> set w \<Longrightarrow> lower_char c \<in> set ''np''" for c
    using assms by (metis imageI lower_def set_map)
  show "\<forall>c\<in>set w. \<not> is_space c"
  proof
    fix c assume "c \<in> set w"
    then have "lower_char c \<in> set ''np''" by (rule mem)
    then have "\<not> is_space (lower_char c)" by (auto simp: is_space_def)
    then show "\<not> is_space c" by simp
  qed
  show "CHR '','' \<notin> set w"
  proof
    assume "CHR '','' \<in> set w"
    then have "lower_char CHR '','' \<in> set ''np''" by (rule mem)
    then show False by (simp add: lower_char_def)
  qed
  show ne: "w \<noteq> []" using l by auto
  show "last w \<noteq> CHR 0x0A"
  proof
    assume e: "last w = CHR 0x0A"
    have "last w \<in> set w" using ne by simp
    then have "lower_char (last w) \<in> set ''np''" by (rule mem)
    then show False unfolding e by (simp add: lower_char_def)
  qed
qed

lemma dropWhile_all_then:
  "\<forall>c\<in>set xs. P c \<Longrightarrow> \<not> P y \<Longrightarrow> dropWhile P (xs @ y # ys) = y # ys"
  by (induction xs) auto

lemma length_dropWhile_keeps:
  "\<not> P y \<Longrightarrow> Suc (length ys) \<le> length (dropWhile P (xs @ y # ys))"
  by (induction xs) auto

lemma re_sub_end_comma_decomp:
  assumes ws: "\<forall>c\<in>set ws. is_space c" and w: "lower w = ''np''"
  shows "re_sub_end comma_np_at (pre @ CHR '','' # ws @ w) = pre"
proof (induction pre)
  case Nil
  have "dropWhile is_space (ws @ w) = w"
    using ws lower_np(2) [OF w] by (rule dropWhile_spaces_word)
  then have "comma_np_at (CHR '','' # ws @ w)" using w by (simp add: comma_np_at_def)
  then show ?case by simp
next
  case (Cons b pre')
  have nolf: "last ((b # pre') @ CHR '','' # ws @ w) \<noteq> CHR 0x0A"
    using lower_np(4,5) [OF w] by simp
  have nomatch: "\<not> comma_np_at ((b # pre') @ CHR '','' # ws @ w)"
  proof
    assume "comma_np_at ((b # pre') @ CHR '','' # ws @ w)"
    then have m: "lower (dropWhile is_space (pre' @ CHR '','' # ws @ w)) = ''np''"
      by (simp add: comma_np_at_def)
    have "\<not> is_space CHR '',''" by (simp add: is_space_def)
    then have "Suc (length (ws @ w)) \<le> length (dropWhile is_space (pre' @ CHR '','' # ws @ w))"
      by (rule length_dropWhile_keeps)
    moreover have "length (dropWhile is_space (pre' @ CHR '','' # ws @ w)) = 2"
      using lower_np(1) [OF m] .
    moreover have "length w = 2" using lower_np(1) [OF w] .
    ultimately show False by simp
  qed
  have "re_sub_end comma_np_at (b # (pre' @ CHR '','' # ws @ w)) =
        b # re_sub_end comma_np_at (pre' @ CHR '','' # ws @ w)"
    using nomatch nolf by (simp only: re_sub_end.simps append_Cons if_False simp_thms)
  then show ?case using Cons.IH by simp
qed

lemma re_sub_end_comma_np:
  assumes t: "t = [] \<or> last t \<noteq> CHR 0x0A"
  shows "re_sub_end comma_np_at t = strip_comma_np t"
proof -
  define w where "w = rev (take 2 (rev t))"
  define ahead where "ahead = dropWhile is_space (drop 2 (rev t))"
  define ws where "ws = rev (takeWhile is_space (drop 2 (rev t)))"
  have sc: "strip_comma_np t =
      (if lower w = ''np'' \<and> ahead \<noteq> [] \<and> hd ahead = CHR '','' then rev (tl ahead) else t)"
    unfolding strip_comma_np_def w_def ahead_def Let_def by simp
  have split: "t = rev ahead @ ws @ w"
  proof -
    have "rev t = take 2 (rev t) @ (takeWhile is_space (drop 2 (rev t)) @ dropWhile is_space (drop 2 (rev t)))"
      by simp
    then have "rev (rev t) = rev (take 2 (rev t) @ (takeWhile is_space (drop 2 (rev t)) @ dropWhile is_space (drop 2 (rev t))))"
      by (rule arg_cong)
    then show ?thesis unfolding w_def ahead_def ws_def by (simp only: rev_rev_ident rev_append append_assoc)
  qed
  have wsp: "\<forall>c\<in>set ws. is_space c" unfolding ws_def by (auto dest: set_takeWhileD)
  show ?thesis
  proof (cases "lower w = ''np'' \<and> ahead \<noteq> [] \<and> hd ahead = CHR '',''")
    case True
    then have a: "ahead = CHR '','' # tl ahead" by (cases ahead) auto
    have "t = rev (tl ahead) @ CHR '','' # ws @ w"
      by (subst split, subst a) simp
    moreover have "re_sub_end comma_np_at (rev (tl ahead) @ CHR '','' # ws @ w) = rev (tl ahead)"
      using wsp True by (intro re_sub_end_comma_decomp) auto
    ultimately show ?thesis using sc True by simp
  next
    case False
    have "\<not> re_search_end comma_np_at t"
    proof
      assume "re_search_end comma_np_at t"
      then obtain pre u where u: "t = pre @ u" "u \<noteq> []" "comma_np_at u"
        using re_search_endD by blast
      then obtain cs where cc: "u = CHR '','' # cs" "lower (dropWhile is_space cs) = ''np''"
        by (cases u) (auto simp: comma_np_at_def)
      define r where "r = dropWhile is_space cs"
      define sp where "sp = takeWhile is_space cs"
      have r: "lower r = ''np''" using cc(2) by (simp add: r_def)
      have lr: "length r = 2" using lower_np(1) [OF r] .
      have tt: "rev t = rev r @ rev sp @ CHR '','' # rev pre"
        unfolding u(1) cc(1) r_def sp_def
        by (metis append.assoc append_Cons append_Nil rev.simps(2) rev_append takeWhile_dropWhile_id)
      have w': "w = r" unfolding w_def tt using lr by simp
      have "drop 2 (rev t) = rev sp @ CHR '','' # rev pre" unfolding tt using lr by simp
      moreover have "\<forall>c\<in>set (rev sp). is_space c" unfolding sp_def by (auto dest: set_takeWhileD)
      moreover have "\<not> is_space CHR '',''" by (simp add: is_space_def)
      ultimately have "ahead = CHR '','' # rev pre"
        unfolding ahead_def by (simp add: dropWhile_all_then)
      then show False using False w' r by simp
    qed
    then have "re_sub_end comma_np_at t = t" using t by (rule re_sub_end_id)
    then show ?thesis using sc False by simp
  qed
qed

subsection \<open>The normalizer as a whole\<close>

lemma set_strip: "set (strip s) \<subseteq> set s"
proof -
  have "set (lstrip s) \<subseteq> set s" unfolding lstrip_def using set_dropWhileD by fastforce
  then show ?thesis unfolding strip_def using set_rstrip by blast
qed

lemma length_rstrip: "length (rstrip s) \<le> length s"
  unfolding rstrip_def by (metis length_dropWhile_le length_rev)

lemma length_strip: "length (strip s) \<le> length s"
  unfolding strip_def lstrip_def
  using length_rstrip [of "dropWhile is_space s"] length_dropWhile_le [of is_space s] by linarith

lemma trimmed_last: "trimmed t \<Longrightarrow> t = [] \<or> \<not> is_space (last t)"
  by (auto simp: trimmed_def)

lemma trimmed_no_lf: "trimmed t \<Longrightarrow> t = [] \<or> last t \<noteq> CHR 0x0A"
  using lf_space by (auto simp: trimmed_def)

lemma strip_credential_prefix: "\<exists>rest. t = strip_credential t @ rest"
proof -
  define front where "front = rev (dropWhile (\<lambda>c. \<not> is_space c) (rev t))"
  obtain w where w: "t = front @ w" unfolding front_def using last_word_split by blast
  obtain ws where ws: "front = rstrip front @ ws" using rstrip_prefix by blast
  have "t = rstrip front @ (ws @ w)" using w ws by simp
  then have "\<exists>rest. t = rstrip front @ rest" by blast
  then show ?thesis unfolding strip_credential_def Let_def front_def by auto
qed

lemma normalize_name_comma_free:
  assumes "CHR '','' \<notin> set s"
  shows "normalize_name (Some s) = lower (strip_credential (strip s))"
proof -
  let ?t = "strip s"
  have tr: "trimmed ?t" by (rule trimmed_strip)
  have n2: "re_sub_end credential_at ?t = strip_credential ?t"
    using trimmed_last [OF tr] by (rule re_sub_end_credential)
  have tr2: "trimmed (strip_credential ?t)" using tr by (rule strip_credential_trimmed)
  have "CHR '','' \<notin> set (strip_credential ?t)"
    using assms strip_credential_subset [of ?t] set_strip [of s] by blast
  then have n3: "re_sub_end comma_np_at (strip_credential ?t) = strip_credential ?t"
    using trimmed_last [OF tr2] by (rule re_sub_end_comma_free)
  have "strip (lower (strip_credential ?t)) = lower (strip_credential ?t)"
    using tr2 by (simp add: strip_lower strip_trimmed)
  then show ?thesis by (simp add: normalize_name_def Let_def n2 n3)
qed

lemma normalize_name_trimmed: "trimmed (normalize_name x)"
proof (cases x)
  case None
  then show ?thesis by (simp add: normalize_name_def trimmed_def)
next
  case (Some a)
  then show ?thesis by (simp add: normalize_name_def Let_def trimmed_strip)
qed

lemma normalize_name_lower: "lower (normalize_name x) = normalize_name x"
  by (cases x) (simp_all add: normalize_name_def Let_def strip_lower [symmetric])

lemma normalize_name_fixed:
  assumes tr: "trimmed n" and lo: "lower n = n"
  shows "normalize_name (Some n) = n \<longleftrightarrow>
           \<not> re_search_end credential_at n \<and> \<not> re_search_end comma_np_at n"
proof -
  let ?n2 = "re_sub_end credential_at n"
  let ?n3 = "re_sub_end comma_np_at ?n2"
  have nn: "normalize_name (Some n) = strip (lower ?n3)"
    using tr by (simp add: normalize_name_def Let_def strip_trimmed)
  have len: "length (normalize_name (Some n)) \<le> length ?n3"
    unfolding nn using length_strip [of "lower ?n3"] by simp
  show ?thesis
  proof (cases "re_search_end credential_at n")
    case True
    then have "length ?n2 < length n" using trimmed_no_lf [OF tr] by (rule re_sub_end_shorter)
    moreover have "length ?n3 \<le> length ?n2" by (rule re_sub_end_length)
    ultimately have "length (normalize_name (Some n)) < length n" using len by linarith
    then show ?thesis using True by auto
  next
    case False
    then have n2: "?n2 = n" using trimmed_no_lf [OF tr] by (rule re_sub_end_id)
    show ?thesis
    proof (cases "re_search_end comma_np_at n")
      case True
      then have "length (re_sub_end comma_np_at n) < length n"
        using trimmed_no_lf [OF tr] by (rule re_sub_end_shorter)
      then have "length (normalize_name (Some n)) < length n" using len n2 by simp
      then show ?thesis using True by auto
    next
      case c: False
      then have "re_sub_end comma_np_at n = n" using trimmed_no_lf [OF tr] by (rule re_sub_end_id)
      then have "normalize_name (Some n) = n"
        unfolding nn n2 using tr lo by (simp add: strip_trimmed)
      then show ?thesis using False c by simp
    qed
  qed
qed

lemma normalize_name_characterization:
  "normalize_name (Some s) = strip (lower (strip_comma_np (strip_credential (strip s))))"
proof -
  let ?t = "strip s"
  have tr: "trimmed ?t" by (rule trimmed_strip)
  have n2: "re_sub_end credential_at ?t = strip_credential ?t"
    using trimmed_last [OF tr] by (rule re_sub_end_credential)
  have tr2: "trimmed (strip_credential ?t)" using tr by (rule strip_credential_trimmed)
  have n3: "re_sub_end comma_np_at (strip_credential ?t) = strip_comma_np (strip_credential ?t)"
    using trimmed_no_lf [OF tr2] by (rule re_sub_end_comma_np)
  show ?thesis by (simp add: normalize_name_def Let_def n2 n3)
qed

lemma strip_comma_np_prefix: "\<exists>rest. t = strip_comma_np t @ rest"
proof -
  define ahead where "ahead = dropWhile is_space (drop 2 (rev t))"
  have "rev t = take 2 (rev t) @ (takeWhile is_space (drop 2 (rev t)) @ ahead)"
    unfolding ahead_def by simp
  then have "rev (rev t) = rev (take 2 (rev t) @ (takeWhile is_space (drop 2 (rev t)) @ ahead))"
    by (rule arg_cong)
  then have t: "t = rev ahead @ rev (takeWhile is_space (drop 2 (rev t))) @ rev (take 2 (rev t))"
    by (simp only: rev_rev_ident rev_append append_assoc)
  show ?thesis
  proof (cases "lower (rev (take 2 (rev t))) = ''np'' \<and> ahead \<noteq> [] \<and> hd ahead = CHR '',''")
    case True
    then have "rev ahead = rev (tl ahead) @ [hd ahead]" by (cases ahead) auto
    then have "t = rev (tl ahead) @ ([hd ahead] @ rev (takeWhile is_space (drop 2 (rev t))) @ rev (take 2 (rev t)))"
      using t by simp
    moreover have "strip_comma_np t = rev (tl ahead)"
      using True unfolding strip_comma_np_def Let_def ahead_def by simp
    ultimately show ?thesis by metis
  next
    case False
    then have "strip_comma_np t = t" unfolding strip_comma_np_def Let_def ahead_def by auto
    then show ?thesis by simp
  qed
qed

lemma rstrip_of_prefix: "\<exists>rest. (a @ b) = rstrip a @ rest"
  using rstrip_prefix [of a] by (metis append.assoc)

lemma normalize_name_prefix: "\<exists>rest. lower (strip s) = normalize_name (Some s) @ rest"
proof -
  let ?t = "strip s"
  let ?u = "strip_credential ?t"
  let ?v = "strip_comma_np ?u"
  obtain r1 where r1: "?t = ?u @ r1" using strip_credential_prefix by blast
  obtain r2 where r2: "?u = ?v @ r2" using strip_comma_np_prefix by blast
  have tv: "?t = ?v @ (r2 @ r1)" by (metis r1 r2 append.assoc)
  have "trimmed ?t" by (rule trimmed_strip)
  then have hd: "?v \<noteq> [] \<Longrightarrow> \<not> is_space (hd ?v)"
    using tv by (metis append_is_Nil_conv hd_append2 trimmed_def)
  have "lstrip (lower ?v) = lower ?v"
  proof (cases "?v = []")
    case True then show ?thesis by (simp add: lstrip_def)
  next
    case False
    then have "\<not> is_space (hd (lower ?v))" using hd by (simp add: lower_def hd_map)
    then show ?thesis unfolding lstrip_def using False by (cases "lower ?v") auto
  qed
  then have n: "normalize_name (Some s) = rstrip (lower ?v)"
    by (simp add: normalize_name_characterization strip_def)
  have "lower ?t = lower ?v @ lower (r2 @ r1)" by (subst tv) (simp add: lower_append)
  then show ?thesis unfolding n using rstrip_of_prefix by metis
qed


text \<open>
  Claim C3, as stated: normalizing twice gives the same as normalizing once. It fails for a
  name that carries two suffix tokens, because each pass removes one.
\<close>

theorem normalize_name_idempotent_counterexample:
  "normalize_name (Some (normalize_name (Some ''a md md''))) \<noteq> normalize_name (Some ''a md md'')"
  by code_simp

text \<open>
  Claim C3, amended. Normalizing a normalized name gives the same name exactly when
  neither suffix pattern still matches it: the name does not end in white space
  followed by a token of the set, nor in a comma, optional white space and \<^verbatim>\<open>np\<close>.
\<close>

theorem normalize_name_idempotent_iff:
  "normalize_name (Some (normalize_name x)) = normalize_name x \<longleftrightarrow>
     \<not> re_search_end credential_at (normalize_name x) \<and>
     \<not> re_search_end comma_np_at (normalize_name x)"
  using normalize_name_trimmed normalize_name_lower by (rule normalize_name_fixed)

theorem normalize_name_idempotent_iff_witness:
  "\<not> re_search_end credential_at (normalize_name (Some ''Jane Doe MD'')) \<and>
   \<not> re_search_end comma_np_at (normalize_name (Some ''Jane Doe MD'')) \<and>
   normalize_name (Some (normalize_name (Some ''Jane Doe MD''))) = normalize_name (Some ''Jane Doe MD'')"
proof -
  have a: "\<not> re_search_end credential_at (normalize_name (Some ''Jane Doe MD''))"
    by code_simp
  have b: "\<not> re_search_end comma_np_at (normalize_name (Some ''Jane Doe MD''))"
    by code_simp
  from normalize_name_idempotent_iff [of "Some ''Jane Doe MD''"] a b show ?thesis
    by blast
qed

text \<open>
  Claim C4, as stated: the normalizer computes the steps of the specification, the last
  of which collapses runs of white space inside the name. The code has no such step.
\<close>

theorem normalize_name_collapse_counterexample:
  "normalize_name (Some ''a  b'') \<noteq> spec_normalize_name ''a  b''"
  by code_simp

text \<open>
  Claim C4, amended. For a raw name that does not end, once trimmed, in a comma, white
  space and \<^verbatim>\<open>NP\<close>, the normalizer computes in this order: trim; when the last
  white-space-delimited word is a token of the set (up to letter case) and is not the
  whole name, remove that word and the white space in front of it; when what is left
  ends in a comma, optional white space and \<^verbatim>\<open>NP\<close>, remove from that comma on;
  lower-case; trim. No other comma is removed and white space inside the name is kept
  as it is, so the result is a prefix of the lower-cased trimmed name. Both copies of
  the function compute this.
\<close>

theorem normalize_name_steps:
  assumes "\<not> re_search_end comma_space_np_at (strip s)"
  shows "normalize_name (Some s) = strip (lower (strip_comma_np (strip_credential (strip s)))) \<and>
         hw_normalize_name (Some s) = strip (lower (strip_comma_np (strip_credential (strip s)))) \<and>
         (\<exists>rest. lower (strip s) = normalize_name (Some s) @ rest)"
  using normalize_name_characterization normalize_name_prefix
  by (simp add: hw_normalize_name_eq)

theorem normalize_name_steps_witness:
  "\<not> re_search_end comma_space_np_at (strip ''Doe,  Jane  MD'') \<and>
   normalize_name (Some ''Doe,  Jane  MD'') = ''doe,  jane'' \<and>
   hw_normalize_name (Some ''Doe,  Jane  MD'') = ''doe,  jane'' \<and>
   \<not> re_search_end comma_space_np_at (strip ''Jane Doe,NP'') \<and>
   normalize_name (Some ''Jane Doe,NP'') = ''jane doe'' \<and>
   hw_normalize_name (Some ''Jane Doe,NP'') = ''jane doe''"
proof -
  have c: "\<not> re_search_end comma_space_np_at (strip ''Doe,  Jane  MD'')" by code_simp
  have v: "strip (lower (strip_comma_np (strip_credential (strip ''Doe,  Jane  MD'')))) = ''doe,  jane''"
    by code_simp
  have c': "\<not> re_search_end comma_space_np_at (strip ''Jane Doe,NP'')" by code_simp
  have v': "strip (lower (strip_comma_np (strip_credential (strip ''Jane Doe,NP'')))) = ''jane doe''"
    by code_simp
  from normalize_name_steps [OF c] normalize_name_steps [OF c'] c c' v v' show ?thesis by simp
qed

text \<open>
  On the names left out above the first substitution takes the white space and the
  token, so that the second one, which looks for the comma in front of the token, finds
  nothing: the comma stays.
\<close>

lemma normalize_name_comma_left_behind:
  "re_search_end comma_space_np_at (strip ''Jane Doe, NP'') \<and>
   normalize_name (Some ''Jane Doe, NP'') = ''jane doe,'' \<and>
   hw_normalize_name (Some ''Jane Doe, NP'') = ''jane doe,''"
  by code_simp

section \<open>Properties of the tables\<close>

subsection \<open>Sorting, grouping and joining\<close>

lemma mset_sort_values_desc: "mset (sort_values_desc key rows) = mset rows"
  by (simp add: sort_values_desc_def)

lemma set_sort_values_desc: "set (sort_values_desc key rows) = set rows"
  by (simp add: sort_values_desc_def)

lemma length_sort_values_desc: "length (sort_values_desc key rows) = length rows"
  by (simp add: sort_values_desc_def)

lemma sorted_sort_values_desc: "sorted (rev (map key (sort_values_desc key rows)))"
  by (simp add: sort_values_desc_def rev_map [symmetric])

lemma set_group_keys: "set (group_keys ks) = {k. Some k \<in> set ks}"
  by (force simp: group_keys_def List.map_filter_def image_iff)

lemma distinct_group_keys: "distinct (group_keys ks)"
  by (simp add: group_keys_def)

lemma length_group_keys: "length (group_keys ks) \<le> length ks"
proof -
  have "length (group_keys ks) = length (remdups (List.map_filter (\<lambda>k. k) ks))"
    by (simp add: group_keys_def)
  also have "\<dots> \<le> length (List.map_filter (\<lambda>k. k) ks)" by (rule length_remdups_leq)
  also have "\<dots> \<le> length ks" by (simp add: List.map_filter_def)
  finally show ?thesis .
qed

lemma merge_inner_product:
  "merge_inner left right =
     map (\<lambda>((a, k), (b, k')). (a, b)) (filter (\<lambda>((a, k), (b, k')). k' = k) (List.product left right))"
proof (induction left)
  case Nil then show ?case by simp
next
  case (Cons x left)
  obtain a k where x: "x = (a, k)" by (cases x)
  have "map (\<lambda>(b, k'). (a, b)) (filter (\<lambda>(b, k'). k' = k) right) =
        map (\<lambda>((a, k), (b, k')). (a, b))
          (filter (\<lambda>((a, k), (b, k')). k' = k) (map (Pair (a, k)) right))"
    by (induction right) auto
  then show ?case using Cons.IH x by simp
qed

lemma length_merge_inner_prod: "length (merge_inner left right) \<le> length left * length right"
proof -
  have "length (merge_inner left right) \<le> length (List.product left right)"
    unfolding merge_inner_product length_map by (rule length_filter_le)
  then show ?thesis by (simp only: length_product)
qed

lemma filter_key_le_1:
  "distinct (map snd right) \<Longrightarrow> length (filter (\<lambda>(b, k'). k' = k) right) \<le> Suc 0"
proof (induction right)
  case Nil then show ?case by simp
next
  case (Cons r right)
  obtain b k' where r: "r = (b, k')" by (cases r)
  show ?case
  proof (cases "k' = k")
    case True
    then have "k \<notin> snd ` set right" using Cons.prems r by auto
    then have "filter (\<lambda>(b, k'). k' = k) right = []"
      by (auto simp: filter_empty_conv image_iff)
    then show ?thesis using r True by simp
  next
    case False
    then show ?thesis using Cons r by simp
  qed
qed

lemma length_merge_inner_left:
  "distinct (map snd right) \<Longrightarrow> length (merge_inner left right) \<le> length left"
proof (induction left)
  case Nil then show ?case by simp
next
  case (Cons x left)
  obtain a k where x: "x = (a, k)" by (cases x)
  have "length (filter (\<lambda>(b, k'). k' = k) right) \<le> Suc 0"
    using Cons.prems by (rule filter_key_le_1)
  then show ?case using Cons x by simp
qed

lemma length_merge_inner_Cons_right:
  "length (merge_inner left ((b, k) # right)) =
     length (filter (\<lambda>(a, k'). k' = k) left) + length (merge_inner left right)"
  by (induction left) auto

lemma length_merge_inner_right:
  "distinct (map snd left) \<Longrightarrow> length (merge_inner left right) \<le> length right"
proof (induction right)
  case Nil
  have "merge_inner left [] = []" by (induction left) auto
  then show ?case by simp
next
  case (Cons r right)
  obtain b k where r: "r = (b, k)" by (cases r)
  have "length (filter (\<lambda>(a, k'). k' = k) left) \<le> Suc 0"
    using Cons.prems by (rule filter_key_le_1)
  then show ?case using Cons r by (simp add: length_merge_inner_Cons_right)
qed

lemma product_map:
  "List.product (map f xs) (map g ys) = map (\<lambda>(x, y). (f x, g y)) (List.product xs ys)"
  by (induction xs) (simp_all add: comp_def)

lemma merge_inner_keys:
  "merge_inner (map (\<lambda>g. (g, kl g)) left) (map (\<lambda>m. (m, kr m)) right) =
     filter (\<lambda>(g, m). kl g = kr m) (List.product left right)"
proof -
  have "merge_inner (map (\<lambda>g. (g, kl g)) left) (map (\<lambda>m. (m, kr m)) right) =
        map (\<lambda>((a, k), (b, k')). (a, b))
          (filter (\<lambda>((a, k), (b, k')). k' = k)
             (map (\<lambda>(x, y). ((x, kl x), (y, kr y))) (List.product left right)))"
    by (simp only: merge_inner_product product_map)
  also have "\<dots> = map (\<lambda>(x, y). (x, y)) (filter (\<lambda>(g, m). kr m = kl g) (List.product left right))"
    by (simp add: filter_map comp_def case_prod_unfold)
  also have "\<dots> = filter (\<lambda>(g, m). kl g = kr m) (List.product left right)"
    by (simp add: eq_commute [of "kr _"] case_prod_unfold)
  finally show ?thesis .
qed

lemma get_hours_worked_eq:
  "get_hours_worked G M =
     sort_values_desc Gusto_Hours
       (map (\<lambda>(g, m). \<lparr>hours_Provider = gusto_Name g,
                           Gusto_Hours = gusto_Total_hours g,
                           hours_Total_Visits = metrics_Total_Visits m,
                           Hours_Worked = round_dp 2 (of_nat (metrics_Total_Visits m) * 20 / 60)\<rparr>)
          (filter (\<lambda>(g, m). normalize_name (Some (gusto_Name g)) = normalize_name (Some (metrics_Provider m)))
             (List.product G M)))"
  unfolding get_hours_worked_def Let_def hw_normalize_name_eq
  by (simp only: merge_inner_keys [of "\<lambda>g. normalize_name (Some (gusto_Name g))" G
                    "\<lambda>m. normalize_name (Some (metrics_Provider m))" M])


subsection \<open>Reconciler\<close>




subsection \<open>Row counts\<close>

lemma length_get_hours_worked:
  "length (get_hours_worked G M) =
     length (merge_inner (map (\<lambda>g. (g, hw_normalize_name (Some (gusto_Name g)))) G)
                         (map (\<lambda>m. (m, hw_normalize_name (Some (metrics_Provider m)))) M))"
  by (simp add: get_hours_worked_def Let_def length_sort_values_desc)

lemma length_api_get_doxy_visits:
  "length (api_get_doxy_visits df) \<le> length df"
  using length_group_keys [of "map Provider_name df"]
  by (simp add: api_get_doxy_visits_def Let_def length_sort_values_desc)

lemma length_get_doxy_visits:
  assumes "get_doxy_visits doxy_df = Inr visits"
  shows "length visits \<le> length (filter (\<lambda>r. \<not> should_exclude_name (Provider_name r)) doxy_df)"
  using assms length_api_get_doxy_visits
  by (auto simp: get_doxy_visits_def split: if_splits)

lemma Duration_Minutes_length:
  "Duration_Minutes rows = Inr minutes \<Longrightarrow> length minutes = length rows"
  by (induction rows arbitrary: minutes) (auto split: sum.splits)

lemma length_df_valid: "length (df_valid minutes) \<le> length minutes"
  by (simp add: df_valid_def List.map_filter_def)

lemma length_metrics_table:
  assumes "metrics_table lib doxy_df rows = Inr table"
  shows "length table \<le> length rows"
proof -
  from assms obtain minutes where m: "Duration_Minutes rows = Inr minutes"
    by (auto simp: metrics_table_def split: sum.splits)
  have "length (group_keys (map fst (df_valid minutes))) \<le> length rows"
    using length_group_keys [of "map fst (df_valid minutes)"] length_df_valid [of minutes]
      Duration_Minutes_length [OF m] by simp
  then show ?thesis
    using assms m
    by (auto simp: metrics_table_def Let_def length_sort_values_desc split: if_splits option.splits)
qed

lemma length_get_doxy_performance_metrics:
  assumes "get_doxy_performance_metrics lib doxy_df = Inr metrics"
  shows "length metrics \<le> length (filter (\<lambda>r. \<not> should_exclude_name (Provider_name r)) doxy_df)"
  using assms length_metrics_table
  by (auto simp: get_doxy_performance_metrics_def split: if_splits)

lemma length_pivot_table: "length (pivot_table df) \<le> length df"
  using length_group_keys [of "map Provider df"]
  by (simp add: pivot_table_def length_sort_values_desc)

lemma length_pivot_of:
  "pivot_of lib df rows = Inr pivot \<Longrightarrow> length pivot \<le> length rows"
  using length_pivot_table [of rows]
  by (auto simp: pivot_of_def split: if_splits option.splits)

lemma filter_filter_le:
  "length (filter P (filter Q xs)) \<le> length (filter P xs)"
  by (induction xs) auto

lemma length_get_visits_by_program:
  assumes "get_visits_by_program lib df = Inr pivot"
  shows "length pivot \<le> length (filter (\<lambda>r. \<not> should_exclude_name (Provider r)) df)"
proof (cases "df = []")
  case True with assms show ?thesis by (simp add: get_visits_by_program_def)
next
  case False
  let ?completed = "filter (\<lambda>r. Status r = Some ''Completed'') df"
  from assms False have
    "pivot_of lib df (filter (\<lambda>r. \<not> should_exclude_name (Provider r)) ?completed) = Inr pivot"
    by (auto simp: get_visits_by_program_def Let_def split: if_splits)
  then have "length pivot \<le> length (filter (\<lambda>r. \<not> should_exclude_name (Provider r)) ?completed)"
    by (rule length_pivot_of)
  also have "\<dots> \<le> length (filter (\<lambda>r. \<not> should_exclude_name (Provider r)) df)"
    by (rule filter_filter_le)
  finally show ?thesis .
qed

lemma length_get_oncehub_visits:
  assumes "get_oncehub_visits booking_df = Inr oncehub"
  shows "length oncehub =
     length (filter (\<lambda>b. \<not> should_exclude_name (booking_provider (Booking_page b))) booking_df)"
proof -
  have "filter (\<lambda>r. \<not> should_exclude_name (oncehub_Provider r)) (map oncehub_of booking_df) =
        map oncehub_of (filter (\<lambda>b. \<not> should_exclude_name (booking_provider (Booking_page b))) booking_df)"
    by (simp add: filter_map comp_def oncehub_of_def)
  then show ?thesis
    using assms by (auto simp: get_oncehub_visits_def length_sort_values_desc split: if_splits)
qed

subsection \<open>The exclusion filter on a cleaned name\<close>

lemma contains_iff: "contains sub s \<longleftrightarrow> (\<exists>a b. s = a @ sub @ b)"
proof (induction s)
  case Nil then show ?case by auto
next
  case (Cons c cs)
  show ?case
  proof
    assume "contains sub (c # cs)"
    then consider "take (length sub) (c # cs) = sub" | "contains sub cs" by auto
    then show "\<exists>a b. c # cs = a @ sub @ b"
    proof cases
      case 1
      then have "c # cs = [] @ sub @ drop (length sub) (c # cs)"
        by (metis append_Nil append_take_drop_id)
      then show ?thesis by blast
    next
      case 2
      then obtain a b where "cs = a @ sub @ b" using Cons.IH by blast
      then have "c # cs = (c # a) @ sub @ b" by simp
      then show ?thesis by blast
    qed
  next
    assume "\<exists>a b. c # cs = a @ sub @ b"
    then obtain a b where ab: "c # cs = a @ sub @ b" by blast
    show "contains sub (c # cs)"
    proof (cases a)
      case Nil
      then have "take (length sub) (c # cs) = sub" using ab by simp
      then show ?thesis by simp
    next
      case (Cons x a')
      then have "cs = a' @ sub @ b" using ab by simp
      then have "contains sub cs" using Cons.IH by blast
      then show ?thesis by simp
    qed
  qed
qed

lemma dropWhile_keeps_infix:
  assumes "e \<noteq> []" "\<not> P (hd e)"
  shows "\<exists>a'. dropWhile P (a @ e @ b) = a' @ e @ b"
proof (induction a)
  case Nil
  have "dropWhile P (e @ b) = e @ b" using assms by (cases e) auto
  then show ?case by (metis append_Nil)
next
  case (Cons x a)
  then show ?case by (cases "P x") (auto intro: exI [of _ "x # a"])
qed

lemma contains_strip:
  assumes c: "contains e x" and e: "e \<noteq> []" "\<not> is_space (hd e)" "\<not> is_space (last e)"
  shows "contains e (strip x)"
proof -
  obtain a b where "x = a @ e @ b" using c contains_iff by blast
  then obtain a' where l: "lstrip x = a' @ e @ b"
    unfolding lstrip_def
    using dropWhile_keeps_infix [of e is_space a b] e(1,2) by blast
  have "rev e \<noteq> []" "\<not> is_space (hd (rev e))" using e by (simp_all add: hd_rev)
  then obtain b' where "dropWhile is_space (rev b @ rev e @ rev a') = b' @ rev e @ rev a'"
    using dropWhile_keeps_infix [of "rev e" is_space "rev b" "rev a'"] by blast
  then have "rstrip (a' @ e @ b) = a' @ e @ rev b'"
    by (simp add: rstrip_def)
  then show ?thesis unfolding strip_def l contains_iff by blast
qed

lemma contains_filter:
  assumes "contains e y" "\<forall>c\<in>set e. P c"
  shows "contains e (filter P y)"
proof -
  obtain a b where "y = a @ e @ b" using assms(1) contains_iff by blast
  moreover have "filter P e = e" using assms(2) by simp
  ultimately have "filter P y = filter P a @ e @ filter P b" by simp
  then show ?thesis unfolding contains_iff by blast
qed

lemma quote_lower: "lower_char c = CHR 0x22 \<longleftrightarrow> c = CHR 0x22"
proof -
  have "(of_char (lower_char c) :: nat) = 34 \<longleftrightarrow> (of_char c :: nat) = 34"
    by (auto simp: of_char_lower_char)
  moreover have "(of_char (CHR 0x22) :: nat) = 34" by simp
  ultimately show ?thesis by (metis of_char_eq_iff)
qed

lemma lower_filter_quote:
  "lower (filter (\<lambda>x. x \<noteq> CHR 0x22) s) = filter (\<lambda>x. x \<noteq> CHR 0x22) (lower s)"
  by (induction s) (auto simp: lower_def quote_lower)

lemma excluded_shape:
  assumes "e \<in> set EXCLUDED_NAMES"
  shows "e \<noteq> []" "\<not> is_space (hd e)" "\<not> is_space (last e)" "\<forall>c\<in>set e. c \<noteq> CHR 0x22"
  using assms by (auto simp: EXCLUDED_NAMES_def is_space_def)

lemma should_exclude_clean_name:
  assumes "should_exclude_name name"
  shows "should_exclude_name (Some (clean_name name))"
proof -
  from assms obtain s where s: "name = Some s"
    by (cases name) (auto simp: should_exclude_name_def)
  from assms s obtain e where e: "e \<in> set EXCLUDED_NAMES" and c: "contains e (strip (lower s))"
    by (auto simp: should_exclude_name_def Let_def list_ex_iff)
  let ?nq = "\<lambda>x. x \<noteq> CHR 0x22"
  have "contains e (lower (strip s))" using c by (simp add: strip_lower)
  then have "contains e (filter ?nq (lower (strip s)))"
    using excluded_shape(4) [OF e] by (rule contains_filter)
  then have "contains e (lower (filter ?nq (strip s)))" by (simp add: lower_filter_quote)
  then have "contains e (strip (lower (filter ?nq (strip s))))"
    using excluded_shape(1-3) [OF e] by (rule contains_strip)
  then show ?thesis
    using e s by (auto simp: should_exclude_name_def clean_name_def Let_def list_ex_iff)
qed

lemma length_filter_mono:
  "(\<And>x. P x \<Longrightarrow> Q x) \<Longrightarrow> length (filter P xs) \<le> length (filter Q xs)"
  by (induction xs) auto

lemma length_matched_hours:
  "length (filter (\<lambda>(n, h). \<not> should_exclude_name (Some n)) (matched_hours gusto_df provs))
     \<le> length (filter (\<lambda>r. \<not> should_exclude_name (Some (clean_name (Name r)))) gusto_df)"
proof -
  let ?named = "map (\<lambda>r. (clean_name (Name r), Total_hours r)) gusto_df"
  let ?ex = "\<lambda>(n, h). \<not> should_exclude_name (Some n)"
  have "length (filter ?ex (matched_hours gusto_df provs)) \<le> length (filter ?ex ?named)"
    unfolding matched_hours_def Let_def
    by (meson filter_filter_le le_trans)
  also have "filter ?ex ?named =
      map (\<lambda>r. (clean_name (Name r), Total_hours r))
        (filter (\<lambda>r. \<not> should_exclude_name (Some (clean_name (Name r)))) gusto_df)"
    by (simp add: filter_map comp_def)
  finally show ?thesis by simp
qed

lemma length_get_gusto_hours:
  assumes "get_gusto_hours gusto_df provs = Inr gusto"
  shows "length gusto \<le> length (filter (\<lambda>r. \<not> should_exclude_name (Name r)) gusto_df)"
proof -
  from assms have
    "gusto = gusto_table (filter (\<lambda>(n, h). \<not> should_exclude_name (Some n)) (matched_hours gusto_df provs))"
    by (auto simp: get_gusto_hours_def Let_def split: if_splits)
  then have "length gusto \<le>
      length (filter (\<lambda>r. \<not> should_exclude_name (Some (clean_name (Name r)))) gusto_df)"
    using length_matched_hours [of gusto_df provs]
    by (simp add: gusto_table_def length_sort_values_desc)
  also have "\<dots> \<le> length (filter (\<lambda>r. \<not> should_exclude_name (Name r)) gusto_df)"
    by (rule length_filter_mono) (use should_exclude_clean_name in blast)
  finally show ?thesis .
qed

text \<open>
  Claim C2, as stated: no derived table has more rows than its source after exclusion
  filtering, and Hours Worked never has more rows than either of its two inputs. Two
  payroll rows and two providers that all normalize to the same name give four rows of
  Hours Worked from two rows on each side. A booking page whose raw name the denylist
  excludes, but whose label without the parenthesis it does not, gives a row of OnceHub
  Visits where the source after filtering on the raw name has none.
\<close>

theorem hours_worked_row_count_counterexample:
  "get_doxy_performance_metrics left_to_right
     [\<lparr>Provider_name = Some ''Jane Doe'', Duration = Some ''00:25:00''\<rparr>,
      \<lparr>Provider_name = Some ''Jane Doe NP'', Duration = Some ''00:10:00''\<rparr>]
   = Inr [\<lparr>metrics_Provider = ''Jane Doe'', metrics_Total_Visits = 1, Visits_Over_20_Min = 1,
           Pct_Over_20_Min = float_literal 100, Hours_Over_20_Min = float_literal (42 / 100),
           Avg_Duration_Min = float_literal 25\<rparr>,
          \<lparr>metrics_Provider = ''Jane Doe NP'', metrics_Total_Visits = 1, Visits_Over_20_Min = 0,
           Pct_Over_20_Min = float_literal 0, Hours_Over_20_Min = float_literal 0,
           Avg_Duration_Min = float_literal 10\<rparr>]
   \<and> get_gusto_hours
        [\<lparr>Name = Some ''Jane Doe'', Total_hours = Some 40\<rparr>,
         \<lparr>Name = Some ''Jane Doe MD'', Total_hours = Some 30\<rparr>]
        [''Jane Doe'', ''Jane Doe NP'']
     = Inr [\<lparr>gusto_Name = ''Jane Doe'', gusto_Total_hours = 40\<rparr>,
            \<lparr>gusto_Name = ''Jane Doe MD'', gusto_Total_hours = 30\<rparr>]
   \<and> length (get_hours_worked
        [\<lparr>gusto_Name = ''Jane Doe'', gusto_Total_hours = 40\<rparr>,
         \<lparr>gusto_Name = ''Jane Doe MD'', gusto_Total_hours = 30\<rparr>]
        [\<lparr>metrics_Provider = ''Jane Doe'', metrics_Total_Visits = 1, Visits_Over_20_Min = 1,
          Pct_Over_20_Min = float_literal 100, Hours_Over_20_Min = float_literal (42 / 100),
          Avg_Duration_Min = float_literal 25\<rparr>,
         \<lparr>metrics_Provider = ''Jane Doe NP'', metrics_Total_Visits = 1, Visits_Over_20_Min = 0,
          Pct_Over_20_Min = float_literal 0, Hours_Over_20_Min = float_literal 0,
          Avg_Duration_Min = float_literal 10\<rparr>]) = 4
   \<and> should_exclude_name (Some ''Front desk (Dan Raphael)'')
   \<and> get_oncehub_visits
        [\<lparr>Booking_page = Some ''Front desk (Dan Raphael)'', All_activities = 5, Scheduled = 1,
          Completed = 3, Canceled = 1, No_show = 0\<rparr>]
     = Inr [\<lparr>oncehub_Provider = Some ''Front desk'', oncehub_Total_Activities = 5,
             oncehub_Scheduled = 1, oncehub_Completed = 3, oncehub_Canceled = 1,
             oncehub_No_show = 0\<rparr>]"
  by code_simp

text \<open>
  Claim C2, amended. Whenever the aggregator returns a table: Doxy Visits, Visits by
  Program, Gusto Hours and Doxy Performance Metrics have at most as many rows as their
  source has after exclusion filtering on the raw name; OnceHub Visits has as many rows
  as the booking summary has rows whose provider label (the booking page without its
  parenthesis) passes the filter, hence at most as many as the booking summary. Hours
  Worked has at most as many rows as the product of the row counts of its two inputs;
  it has at most as many rows as the payroll table when the normalized provider names
  of the metrics table are pairwise distinct, and at most as many rows as the metrics
  table when the normalized names of the payroll table are pairwise distinct.
\<close>

theorem derived_row_counts:
  "(get_doxy_visits doxy_df = Inr visits \<longrightarrow>
      length visits \<le> length (filter (\<lambda>r. \<not> should_exclude_name (Provider_name r)) doxy_df))
   \<and> (get_oncehub_visits booking_df = Inr oncehub \<longrightarrow>
      length oncehub =
        length (filter (\<lambda>b. \<not> should_exclude_name (booking_provider (Booking_page b))) booking_df)
      \<and> length oncehub \<le> length booking_df)
   \<and> (get_visits_by_program lib df = Inr pivot \<longrightarrow>
      length pivot \<le> length (filter (\<lambda>r. \<not> should_exclude_name (Provider r)) df))
   \<and> (get_gusto_hours gusto_df doxy_providers = Inr gusto \<longrightarrow>
      length gusto \<le> length (filter (\<lambda>r. \<not> should_exclude_name (Name r)) gusto_df))
   \<and> (get_doxy_performance_metrics lib doxy_df = Inr metrics \<longrightarrow>
      length metrics \<le> length (filter (\<lambda>r. \<not> should_exclude_name (Provider_name r)) doxy_df))
   \<and> length (get_hours_worked G M) \<le> length G * length M
   \<and> (distinct (map (\<lambda>m. normalize_name (Some (metrics_Provider m))) M)
        \<longrightarrow> length (get_hours_worked G M) \<le> length G)
   \<and> (distinct (map (\<lambda>g. normalize_name (Some (gusto_Name g))) G)
        \<longrightarrow> length (get_hours_worked G M) \<le> length M)"
proof (intro conjI impI)
  assume "get_doxy_visits doxy_df = Inr visits"
  then show "length visits \<le> length (filter (\<lambda>r. \<not> should_exclude_name (Provider_name r)) doxy_df)"
    by (rule length_get_doxy_visits)
next
  assume a: "get_oncehub_visits booking_df = Inr oncehub"
  then show l: "length oncehub =
        length (filter (\<lambda>b. \<not> should_exclude_name (booking_provider (Booking_page b))) booking_df)"
    by (rule length_get_oncehub_visits)
  show "length oncehub \<le> length booking_df" unfolding l by (rule length_filter_le)
next
  assume "get_visits_by_program lib df = Inr pivot"
  then show "length pivot \<le> length (filter (\<lambda>r. \<not> should_exclude_name (Provider r)) df)"
    by (rule length_get_visits_by_program)
next
  assume "get_gusto_hours gusto_df doxy_providers = Inr gusto"
  then show "length gusto \<le> length (filter (\<lambda>r. \<not> should_exclude_name (Name r)) gusto_df)"
    by (rule length_get_gusto_hours)
next
  assume "get_doxy_performance_metrics lib doxy_df = Inr metrics"
  then show "length metrics \<le> length (filter (\<lambda>r. \<not> should_exclude_name (Provider_name r)) doxy_df)"
    by (rule length_get_doxy_performance_metrics)
next
  show "length (get_hours_worked G M) \<le> length G * length M"
    using length_merge_inner_prod
      [of "map (\<lambda>g. (g, hw_normalize_name (Some (gusto_Name g)))) G"
          "map (\<lambda>m. (m, hw_normalize_name (Some (metrics_Provider m)))) M"]
    by (simp add: length_get_hours_worked)
next
  assume "distinct (map (\<lambda>m. normalize_name (Some (metrics_Provider m))) M)"
  then have "distinct (map snd (map (\<lambda>m. (m, hw_normalize_name (Some (metrics_Provider m)))) M))"
    by (simp add: comp_def hw_normalize_name_eq)
  then show "length (get_hours_worked G M) \<le> length G"
    using length_merge_inner_left
      [of "map (\<lambda>m. (m, hw_normalize_name (Some (metrics_Provider m)))) M"
          "map (\<lambda>g. (g, hw_normalize_name (Some (gusto_Name g)))) G"]
    by (simp add: length_get_hours_worked)
next
  assume "distinct (map (\<lambda>g. normalize_name (Some (gusto_Name g))) G)"
  then have "distinct (map snd (map (\<lambda>g. (g, hw_normalize_name (Some (gusto_Name g)))) G))"
    by (simp add: comp_def hw_normalize_name_eq)
  then show "length (get_hours_worked G M) \<le> length M"
    using length_merge_inner_right
      [of "map (\<lambda>g. (g, hw_normalize_name (Some (gusto_Name g)))) G"
          "map (\<lambda>m. (m, hw_normalize_name (Some (metrics_Provider m)))) M"]
    by (simp add: length_get_hours_worked)
qed

theorem derived_row_counts_witness:
  "get_doxy_visits
     [\<lparr>Provider_name = Some ''Jane Doe NP'', Duration = Some ''00:25:00''\<rparr>,
      \<lparr>Provider_name = Some ''Jane Doe NP'', Duration = Some ''00:10:00''\<rparr>,
      \<lparr>Provider_name = Some ''Dan Raphael'', Duration = Some ''00:30:00''\<rparr>]
     = Inr [\<lparr>visits_Provider_name = ''Jane Doe NP'', Total_Visits = 2\<rparr>]
   \<and> get_oncehub_visits
        [\<lparr>Booking_page = Some ''Jane Doe (TRT)'', All_activities = 5, Scheduled = 1,
          Completed = 3, Canceled = 1, No_show = 0\<rparr>]
     = Inr [\<lparr>oncehub_Provider = Some ''Jane Doe'', oncehub_Total_Activities = 5,
             oncehub_Scheduled = 1, oncehub_Completed = 3, oncehub_Canceled = 1,
             oncehub_No_show = 0\<rparr>]
   \<and> get_visits_by_program left_to_right
        [\<lparr>Status = Some ''Completed'', Provider = Some ''Jane Doe'', Event_Type = Some ''TRT Follow-up''\<rparr>,
         \<lparr>Status = Some ''Canceled'', Provider = Some ''Jane Doe'', Event_Type = Some ''HRT Intake''\<rparr>]
     = Inr [\<lparr>program_Provider = ''Jane Doe'', TRT_count = 1, HRT_count = 0, Other_count = 0, Total = 1\<rparr>]
   \<and> get_gusto_hours
        [\<lparr>Name = Some ''Jane Doe'', Total_hours = Some 40\<rparr>,
         \<lparr>Name = Some ''John Roe'', Total_hours = Some 12\<rparr>] [''Jane Doe NP'']
     = Inr [\<lparr>gusto_Name = ''Jane Doe'', gusto_Total_hours = 40\<rparr>]
   \<and> map_sum id length (get_doxy_performance_metrics left_to_right
        [\<lparr>Provider_name = Some ''Jane Doe NP'', Duration = Some ''00:25:00''\<rparr>,
         \<lparr>Provider_name = Some ''Jane Doe NP'', Duration = Some ''00:10:00''\<rparr>,
         \<lparr>Provider_name = Some ''Dan Raphael'', Duration = Some ''00:30:00''\<rparr>]) = Inr 1
   \<and> distinct (map (\<lambda>m. normalize_name (Some (metrics_Provider m)))
      [\<lparr>metrics_Provider = ''Jane Doe NP'', metrics_Total_Visits = 3, Visits_Over_20_Min = 3,
        Pct_Over_20_Min = Finite 100, Hours_Over_20_Min = Finite (5 / 4), Avg_Duration_Min = Finite 25\<rparr>])
   \<and> distinct (map (\<lambda>g. normalize_name (Some (gusto_Name g)))
      [\<lparr>gusto_Name = ''Jane Doe'', gusto_Total_hours = 40\<rparr>,
       \<lparr>gusto_Name = ''John Roe'', gusto_Total_hours = 12\<rparr>])
   \<and> length (get_hours_worked
        [\<lparr>gusto_Name = ''Jane Doe'', gusto_Total_hours = 40\<rparr>,
         \<lparr>gusto_Name = ''John Roe'', gusto_Total_hours = 12\<rparr>]
        [\<lparr>metrics_Provider = ''Jane Doe NP'', metrics_Total_Visits = 3, Visits_Over_20_Min = 3,
          Pct_Over_20_Min = Finite 100, Hours_Over_20_Min = Finite (5 / 4), Avg_Duration_Min = Finite 25\<rparr>]) \<le> 1"
proof -
  let ?D = "[\<lparr>Provider_name = Some ''Jane Doe NP'', Duration = Some ''00:25:00''\<rparr>,
      \<lparr>Provider_name = Some ''Jane Doe NP'', Duration = Some ''00:10:00''\<rparr>,
      \<lparr>Provider_name = Some ''Dan Raphael'', Duration = Some ''00:30:00''\<rparr>]"
  let ?B = "[\<lparr>Booking_page = Some ''Jane Doe (TRT)'', All_activities = 5, Scheduled = 1,
          Completed = 3, Canceled = 1, No_show = 0\<rparr>]"
  let ?A = "[\<lparr>Status = Some ''Completed'', Provider = Some ''Jane Doe'', Event_Type = Some ''TRT Follow-up''\<rparr>,
         \<lparr>Status = Some ''Canceled'', Provider = Some ''Jane Doe'', Event_Type = Some ''HRT Intake''\<rparr>]"
  let ?P = "[\<lparr>Name = Some ''Jane Doe'', Total_hours = Some 40\<rparr>,
         \<lparr>Name = Some ''John Roe'', Total_hours = Some 12\<rparr>]"
  let ?G = "[\<lparr>gusto_Name = ''Jane Doe'', gusto_Total_hours = 40\<rparr>,
       \<lparr>gusto_Name = ''John Roe'', gusto_Total_hours = 12\<rparr>]"
  let ?M = "[\<lparr>metrics_Provider = ''Jane Doe NP'', metrics_Total_Visits = 3, Visits_Over_20_Min = 3,
        Pct_Over_20_Min = Finite 100, Hours_Over_20_Min = Finite (5 / 4), Avg_Duration_Min = Finite 25\<rparr>]"
  have v: "get_doxy_visits ?D = Inr [\<lparr>visits_Provider_name = ''Jane Doe NP'', Total_Visits = 2\<rparr>]"
    by code_simp
  have o: "get_oncehub_visits ?B
     = Inr [\<lparr>oncehub_Provider = Some ''Jane Doe'', oncehub_Total_Activities = 5,
             oncehub_Scheduled = 1, oncehub_Completed = 3, oncehub_Canceled = 1,
             oncehub_No_show = 0\<rparr>]"
    by code_simp
  have p: "get_visits_by_program left_to_right ?A
     = Inr [\<lparr>program_Provider = ''Jane Doe'', TRT_count = 1, HRT_count = 0, Other_count = 0, Total = 1\<rparr>]"
    by code_simp
  have g: "get_gusto_hours ?P [''Jane Doe NP''] = Inr [\<lparr>gusto_Name = ''Jane Doe'', gusto_Total_hours = 40\<rparr>]"
    by code_simp
  have m: "map_sum id length (get_doxy_performance_metrics left_to_right ?D) = Inr 1"
    by code_simp
  then obtain metrics where m': "get_doxy_performance_metrics left_to_right ?D = Inr metrics"
    by (cases "get_doxy_performance_metrics left_to_right ?D") auto
  have d1: "distinct (map (\<lambda>m. normalize_name (Some (metrics_Provider m))) ?M)" by simp
  have d2: "distinct (map (\<lambda>g. normalize_name (Some (gusto_Name g))) ?G)" by code_simp
  from derived_row_counts [of ?D _ ?B _ left_to_right ?A _ ?P "[''Jane Doe NP'']" _ metrics ?G ?M]
    v o p g m m' d1 d2
  show ?thesis by simp
qed

subsection \<open>Duration performance metrics\<close>

lemma Duration_Minutes_group:
  "Duration_Minutes rows = Inr minutes \<Longrightarrow>
     map snd (filter (\<lambda>(p, d). p = Some k) (df_valid minutes)) = parsed_durations rows k"
proof (induction rows arbitrary: minutes)
  case Nil
  then show ?case by (simp add: df_valid_def parsed_durations_def)
next
  case (Cons r rs)
  from Cons.prems obtain m ms where m: "parse_duration_to_minutes (Duration r) = Inr m"
    and ms: "Duration_Minutes rs = Inr ms" and eq: "minutes = (Provider_name r, m) # ms"
    by (auto split: sum.splits)
  have ih: "map snd (filter (\<lambda>(p, d). p = Some k) (df_valid ms)) = parsed_durations rs k"
    using ms by (rule Cons.IH)
  have v: "df_valid minutes = (case m of None \<Rightarrow> [] | Some d \<Rightarrow> [(Provider_name r, d)]) @ df_valid ms"
    unfolding eq by (cases m) (simp_all add: df_valid_def)
  have p: "parsed_durations (r # rs) k =
      (if Provider_name r = Some k then (case m of None \<Rightarrow> [] | Some d \<Rightarrow> [d]) else [])
      @ parsed_durations rs k"
    using m by (cases m) (simp_all add: parsed_durations_def)
  show ?case unfolding v p using ih by (cases m) auto
qed

lemma Duration_Minutes_keys:
  "Duration_Minutes rows = Inr minutes \<Longrightarrow>
     {k. Some k \<in> set (map fst (df_valid minutes))} =
     {k. \<exists>r\<in>set rows. Provider_name r = Some k \<and>
            (\<exists>d. parse_duration_to_minutes (Duration r) = Inr (Some d))}"
proof (induction rows arbitrary: minutes)
  case Nil
  then show ?case by (simp add: df_valid_def)
next
  case (Cons r rs)
  from Cons.prems obtain m ms where m: "parse_duration_to_minutes (Duration r) = Inr m"
    and ms: "Duration_Minutes rs = Inr ms" and eq: "minutes = (Provider_name r, m) # ms"
    by (auto split: sum.splits)
  have ih: "{k. Some k \<in> set (map fst (df_valid ms))} =
     {k. \<exists>r\<in>set rs. Provider_name r = Some k \<and>
            (\<exists>d. parse_duration_to_minutes (Duration r) = Inr (Some d))}"
    using ms by (rule Cons.IH)
  have v: "df_valid minutes = (case m of None \<Rightarrow> [] | Some d \<Rightarrow> [(Provider_name r, d)]) @ df_valid ms"
    unfolding eq by (cases m) (simp_all add: df_valid_def)
  show ?case
  proof (cases m)
    case None
    then show ?thesis using v ih m by auto
  next
    case (Some d)
    then show ?thesis using v ih m by auto
  qed
qed

lemma metrics_of_Provider: "metrics_Provider (metrics_of lib valid k) = k"
  by (simp add: metrics_of_def Let_def)

lemma metrics_of_fields:
  assumes "Duration_Minutes rows = Inr minutes"
  shows "let x = parsed_durations rows (metrics_Provider (metrics_of lib (df_valid minutes) k));
        over = filter (\<lambda>d. float_gt d 20) x
    in metrics_Total_Visits (metrics_of lib (df_valid minutes) k) = length x \<and>
       Visits_Over_20_Min (metrics_of lib (df_valid minutes) k) = length over \<and>
       Hours_Over_20_Min (metrics_of lib (df_valid minutes) k) =
         np_round 2 (float_over (Series_sum lib over) 60) \<and>
       Avg_Duration_Min (metrics_of lib (df_valid minutes) k) = np_round 2 (group_mean lib x) \<and>
       Pct_Over_20_Min (metrics_of lib (df_valid minutes) k) =
         np_round 1 (float_times (to_float64 (of_nat (length over) / of_nat (length x))) 100)"
  by (simp add: metrics_of_def Let_def Duration_Minutes_group [OF assms])

lemma metrics_table_spec:
  assumes t: "metrics_table lib doxy_df rows = Inr table"
  shows "performance_spec lib rows table"
proof -
  from t obtain minutes where m: "Duration_Minutes rows = Inr minutes"
    by (auto simp: metrics_table_def split: sum.splits)
  let ?valid = "df_valid minutes"
  let ?keys = "group_keys (map fst ?valid)"
  let ?rows = "map (metrics_of lib ?valid) ?keys"
  have M: "table = sort_values_desc metrics_Total_Visits ?rows"
  proof (cases "?keys = []")
    case True
    then have "table = []" using t m
      by (auto simp: metrics_table_def Let_def split: option.splits)
    then show ?thesis using True by (simp add: sort_values_desc_def)
  next
    case False
    then show ?thesis using t m by (auto simp: metrics_table_def Let_def)
  qed
  have names: "map metrics_Provider ?rows = ?keys"
    by (simp add: comp_def metrics_of_Provider)
  have "mset (map metrics_Provider table) = mset (map metrics_Provider ?rows)"
    unfolding M by (simp only: mset_map mset_sort_values_desc)
  then have ms: "mset (map metrics_Provider table) = mset ?keys" by (simp only: names)
  have d: "distinct (map metrics_Provider table)"
    using ms distinct_group_keys by (metis mset_eq_imp_distinct_iff)
  have "set (map metrics_Provider table) = set ?keys"
    using ms by (metis set_mset_mset)
  then have s: "set (map metrics_Provider table) =
      {k. \<exists>r\<in>set rows. Provider_name r = Some k \<and>
             (\<exists>d. parse_duration_to_minutes (Duration r) = Inr (Some d))}"
    by (simp only: set_group_keys Duration_Minutes_keys [OF m])
  have r: "\<forall>row\<in>set table.
        let x = parsed_durations rows (metrics_Provider row);
            over = filter (\<lambda>d. float_gt d 20) x
        in metrics_Total_Visits row = length x \<and>
           Visits_Over_20_Min row = length over \<and>
           Hours_Over_20_Min row = np_round 2 (float_over (Series_sum lib over) 60) \<and>
           Avg_Duration_Min row = np_round 2 (group_mean lib x) \<and>
           Pct_Over_20_Min row =
             np_round 1 (float_times (to_float64 (of_nat (length over) / of_nat (length x))) 100)"
  proof
    fix row assume "row \<in> set table"
    then obtain k where "row = metrics_of lib ?valid k"
      unfolding M set_sort_values_desc by auto
    then show "let x = parsed_durations rows (metrics_Provider row);
            over = filter (\<lambda>d. float_gt d 20) x
        in metrics_Total_Visits row = length x \<and>
           Visits_Over_20_Min row = length over \<and>
           Hours_Over_20_Min row = np_round 2 (float_over (Series_sum lib over) 60) \<and>
           Avg_Duration_Min row = np_round 2 (group_mean lib x) \<and>
           Pct_Over_20_Min row =
             np_round 1 (float_times (to_float64 (of_nat (length over) / of_nat (length x))) 100)"
      using metrics_of_fields [OF m, of lib k] by simp
  qed
  have o: "sorted (rev (map metrics_Total_Visits table))"
    unfolding M by (rule sorted_sort_values_desc)
  from d s r o show ?thesis unfolding performance_spec_def by blast
qed






subsection \<open>Exclusion\<close>

text \<open>No table that app.py returns shows a name that the denylist excludes.\<close>

lemma get_doxy_visits_names:
  assumes t: "get_doxy_visits df = Inr visits" and r: "row \<in> set visits"
  shows "\<not> should_exclude_name (Some (visits_Provider_name row))"
proof -
  let ?kept = "filter (\<lambda>r. \<not> should_exclude_name (Provider_name r)) df"
  from t have v: "visits = api_get_doxy_visits ?kept"
    by (auto simp: get_doxy_visits_def split: if_splits)
  have "set (map visits_Provider_name visits) = set (group_keys (map Provider_name ?kept))"
    unfolding v api_get_doxy_visits_def Let_def
    by (simp add: set_sort_values_desc image_image)
  then have "visits_Provider_name row \<in> set (group_keys (map Provider_name ?kept))"
    using r by auto
  then have "Some (visits_Provider_name row) \<in> set (map Provider_name ?kept)"
    by (simp only: set_group_keys mem_Collect_eq)
  then obtain r where "r \<in> set ?kept" "Provider_name r = Some (visits_Provider_name row)"
    by auto
  then show ?thesis by auto
qed

lemma get_oncehub_visits_names:
  "get_oncehub_visits b = Inr oncehub \<Longrightarrow> row \<in> set oncehub \<Longrightarrow>
     \<not> should_exclude_name (oncehub_Provider row)"
  by (auto simp: get_oncehub_visits_def set_sort_values_desc split: if_splits)

lemma get_visits_by_program_names:
  assumes t: "get_visits_by_program lib p = Inr pivot" and r: "row \<in> set pivot"
  shows "\<not> should_exclude_name (Some (program_Provider row))"
proof -
  let ?kept = "filter (\<lambda>r. \<not> should_exclude_name (Provider r)) (filter (\<lambda>r. Status r = Some ''Completed'') p)"
  have "row \<in> set (pivot_table ?kept)"
    using t r
    by (auto simp: get_visits_by_program_def pivot_of_def Let_def split: if_splits option.splits)
  moreover have "set (map program_Provider (pivot_table ?kept)) = set (group_keys (map Provider ?kept))"
    unfolding pivot_table_def
    by (simp add: set_sort_values_desc image_image pivot_row_def Let_def)
  ultimately have "program_Provider row \<in> set (group_keys (map Provider ?kept))"
    by auto
  then have "Some (program_Provider row) \<in> set (map Provider ?kept)"
    by (simp only: set_group_keys mem_Collect_eq)
  then obtain r where "r \<in> set ?kept" "Provider r = Some (program_Provider row)"
    by auto
  then show ?thesis by auto
qed

lemma get_gusto_hours_names:
  "get_gusto_hours g provs = Inr gusto \<Longrightarrow> row \<in> set gusto \<Longrightarrow>
     \<not> should_exclude_name (Some (gusto_Name row))"
  by (auto simp: get_gusto_hours_def gusto_table_def Let_def set_sort_values_desc split: if_splits)

lemma get_doxy_performance_metrics_names:
  assumes t: "get_doxy_performance_metrics lib df = Inr metrics" and r: "row \<in> set metrics"
  shows "\<not> should_exclude_name (Some (metrics_Provider row))"
proof -
  let ?kept = "filter (\<lambda>r. \<not> should_exclude_name (Provider_name r)) df"
  from t have "metrics_table lib df ?kept = Inr metrics"
    by (auto simp: get_doxy_performance_metrics_def split: if_splits)
  then have "performance_spec lib ?kept metrics" by (rule metrics_table_spec)
  moreover have "metrics_Provider row \<in> set (map metrics_Provider metrics)" using r by simp
  ultimately obtain r where "r \<in> set ?kept" "Provider_name r = Some (metrics_Provider row)"
    unfolding performance_spec_def by blast
  then show ?thesis by auto
qed

lemma get_hours_worked_names:
  assumes "row \<in> set (get_hours_worked G M)"
  shows "\<exists>g\<in>set G. hours_Provider row = gusto_Name g"
  using assms unfolding get_hours_worked_eq set_sort_values_desc by auto

lemma app_tables_show_no_excluded_name:
  "(get_doxy_visits doxy_df = Inr visits \<longrightarrow>
      (\<forall>row\<in>set visits. \<not> should_exclude_name (Some (visits_Provider_name row))))
   \<and> (get_oncehub_visits booking_df = Inr oncehub \<longrightarrow>
      (\<forall>row\<in>set oncehub. \<not> should_exclude_name (oncehub_Provider row)))
   \<and> (get_visits_by_program lib df = Inr pivot \<longrightarrow>
      (\<forall>row\<in>set pivot. \<not> should_exclude_name (Some (program_Provider row))))
   \<and> (get_gusto_hours gusto_df doxy_providers = Inr gusto \<longrightarrow>
      (\<forall>row\<in>set gusto. \<not> should_exclude_name (Some (gusto_Name row))) \<and>
      (\<forall>row\<in>set (get_hours_worked gusto M). \<not> should_exclude_name (Some (hours_Provider row))))
   \<and> (get_doxy_performance_metrics lib doxy_df = Inr metrics \<longrightarrow>
      (\<forall>row\<in>set metrics. \<not> should_exclude_name (Some (metrics_Provider row))))"
proof (intro conjI impI ballI)
  fix row assume "get_doxy_visits doxy_df = Inr visits" "row \<in> set visits"
  then show "\<not> should_exclude_name (Some (visits_Provider_name row))"
    by (rule get_doxy_visits_names)
next
  fix row assume "get_oncehub_visits booking_df = Inr oncehub" "row \<in> set oncehub"
  then show "\<not> should_exclude_name (oncehub_Provider row)"
    by (rule get_oncehub_visits_names)
next
  fix row assume "get_visits_by_program lib df = Inr pivot" "row \<in> set pivot"
  then show "\<not> should_exclude_name (Some (program_Provider row))"
    by (rule get_visits_by_program_names)
next
  fix row assume "get_gusto_hours gusto_df doxy_providers = Inr gusto" "row \<in> set gusto"
  then show "\<not> should_exclude_name (Some (gusto_Name row))"
    by (rule get_gusto_hours_names)
next
  fix row assume g: "get_gusto_hours gusto_df doxy_providers = Inr gusto"
    and "row \<in> set (get_hours_worked gusto M)"
  then obtain r where "r \<in> set gusto" "hours_Provider row = gusto_Name r"
    using get_hours_worked_names by blast
  then show "\<not> should_exclude_name (Some (hours_Provider row))"
    using get_gusto_hours_names [OF g] by simp
next
  fix row assume "get_doxy_performance_metrics lib doxy_df = Inr metrics" "row \<in> set metrics"
  then show "\<not> should_exclude_name (Some (metrics_Provider row))"
    by (rule get_doxy_performance_metrics_names)
qed

text \<open>
  Claim C8 at one input. A record of a provider whose name contains a denylist entry
  appears in the tables of api/index.py, which never calls the exclusion filter: in
  Doxy Visits, Doxy Performance Metrics, OnceHub Visits, Visits by Program and Gusto
  Hours. app.py drops the same visit from Doxy Visits.
\<close>

theorem api_tables_keep_excluded_name:
  "should_exclude_name (Some ''Dan Raphael'')
   \<and> api_get_doxy_visits [\<lparr>Provider_name = Some ''Dan Raphael'', Duration = Some ''00:25:00''\<rparr>]
     = [\<lparr>visits_Provider_name = ''Dan Raphael'', Total_Visits = 1\<rparr>]
   \<and> api_get_doxy_performance_metrics lib
       [\<lparr>Provider_name = Some ''Dan Raphael'', Duration = Some ''00:25:00''\<rparr>]
     = Inr [\<lparr>metrics_Provider = ''Dan Raphael'', metrics_Total_Visits = 1, Visits_Over_20_Min = 1,
             Pct_Over_20_Min = float_literal 100, Hours_Over_20_Min = float_literal (42 / 100),
             Avg_Duration_Min = float_literal 25\<rparr>]
   \<and> api_get_oncehub_visits
       [\<lparr>Booking_page = Some ''Dan Raphael (TRT)'', All_activities = 5, Scheduled = 1,
         Completed = 3, Canceled = 1, No_show = 0\<rparr>]
     = Inr [\<lparr>oncehub_Provider = Some ''Dan Raphael'', oncehub_Total_Activities = 5,
             oncehub_Scheduled = 1, oncehub_Completed = 3, oncehub_Canceled = 1,
             oncehub_No_show = 0\<rparr>]
   \<and> api_get_visits_by_program lib
       [\<lparr>Status = Some ''Completed'', Provider = Some ''Dan Raphael'', Event_Type = Some ''TRT Follow-up''\<rparr>]
     = Inr [\<lparr>program_Provider = ''Dan Raphael'', TRT_count = 1, HRT_count = 0, Other_count = 0,
             Total = 1\<rparr>]
   \<and> api_get_gusto_hours [\<lparr>Name = Some ''Dan Raphael'', Total_hours = Some 40\<rparr>] [''Dan Raphael'']
     = Inr [\<lparr>gusto_Name = ''Dan Raphael'', gusto_Total_hours = 40\<rparr>]
   \<and> get_doxy_visits [\<lparr>Provider_name = Some ''Dan Raphael'', Duration = Some ''00:25:00''\<rparr>] = Inr []"
  by code_simp

section \<open>Properties of report generation\<close>

lemma decode_account_Some: "decode_account f \<noteq> None"
  by (simp add: decode_account_def latin_1_def split: option.splits)

lemma account_errors_Nil: "account_errors f = []"
  by (simp add: account_errors_def decode_account_Some)

lemma not_decode_message:
  "''Could not decode Account Detail Report - try a different file format'' \<notin> set (doxy_errors doxy)"
  "''Could not decode Account Detail Report - try a different file format'' \<notin> set (gusto_errors gusto)"
  by (auto simp: doxy_errors_def gusto_errors_def split: sum.splits)

text \<open>
  Claim C10. Whatever the bytes of the account report and whatever the other codecs
  answer, the loop over the encodings ends with a decoded text, because the latin-1
  step cannot fail; so \<^verbatim>\<open>account_content\<close> is never \<^verbatim>\<open>None\<close> and the
  message of the decode branch is never among the collected errors.
\<close>

theorem account_content_never_None:
  "decode_account f \<noteq> None
   \<and> account_errors f = []
   \<and> ''Could not decode Account Detail Report - try a different file format''
       \<notin> set (read_errors doxy f gusto)"
  using decode_account_Some account_errors_Nil not_decode_message
  by (simp add: read_errors_def)

lemma read_booking_failed: "read_booking (Some (Inl e)) = read_booking None"
  by (simp add: read_booking_def)

lemma generate_report_booking_failed:
  "generate_report lib doxy account gusto (Some (Inl e)) = generate_report lib doxy account gusto None"
  by (simp add: generate_report_def read_booking_failed)

lemma generate_sections_no_booking:
  "generate_sections lib doxy_df account gusto_df None = (calls, Inr r) \<Longrightarrow>
     OnceHub_Visits r = None \<and> ''get_oncehub_visits'' \<notin> set calls"
  by (auto simp: generate_sections_def Let_def split: sum.splits)

lemma generate_report_no_booking:
  assumes "generate_report lib doxy account gusto None = (calls, Inr r)"
  shows "OnceHub_Visits r = None \<and> ''get_oncehub_visits'' \<notin> set calls"
proof -
  from assms obtain d :: "visit frame" and g :: "payroll frame"
    where "generate_sections lib (frame_rows d) account g None = (calls, Inr r)"
    by (auto simp: generate_report_def Let_def read_booking_def split: if_splits sum.splits)
  then show ?thesis by (rule generate_sections_no_booking)
qed

lemma read_errors_iff:
  "read_errors doxy account gusto \<noteq> [] \<longleftrightarrow>
     (\<exists>e. doxy = Inl e) \<or>
     (\<exists>d. doxy = Inr d \<and> (''Provider name'' \<notin> set (frame_columns d) \<or> ''Duration'' \<notin> set (frame_columns d))) \<or>
     (\<exists>e. gusto = Inl e)"
  by (cases doxy; cases gusto)
     (auto simp: read_errors_def doxy_errors_def gusto_errors_def account_errors_Nil)

lemma generate_report_abort:
  "read_errors doxy account gusto \<noteq> [] \<Longrightarrow>
     generate_report lib doxy account gusto booking =
       ([], Inl (ValueError (read_errors doxy account gusto)))"
  by (simp add: generate_report_def Let_def)

lemma generate_report_success:
  assumes "doxy = Inr d" "''Provider name'' \<in> set (frame_columns d)" "''Duration'' \<in> set (frame_columns d)"
    and "gusto = Inr g"
    and "get_doxy_visits (frame_rows d) = Inr doxy_visits"
    and "frame_visits_by_program lib account = Inr visits_by_program"
    and "frame_gusto_hours g (map visits_Provider_name doxy_visits) = Inr gusto_hours"
    and "get_doxy_performance_metrics lib (frame_rows d) = Inr performance_metrics"
  shows "generate_report lib doxy account gusto None =
     ([''get_doxy_visits'', ''get_visits_by_program'', ''get_gusto_hours'',
       ''get_doxy_performance_metrics'', ''get_hours_worked''],
      Inr \<lparr>Doxy_Visits = doxy_visits,
           OnceHub_Visits = None,
           Visits_by_Program = visits_by_program,
           Gusto_Hours_sheet = gusto_hours,
           Doxy_Performance_Metrics = performance_metrics,
           Hours_Worked_sheet = get_hours_worked gusto_hours performance_metrics,
           stats_providers = length doxy_visits,
           stats_total_visits = sum_list (map Total_Visits doxy_visits),
           stats_sheets = 6\<rparr>)"
proof -
  have "read_errors doxy account gusto = []"
    using assms(1-4) read_errors_iff [of doxy account gusto] by auto
  then show ?thesis
    using assms
    by (simp add: generate_report_def generate_sections_def Let_def read_booking_def)
qed

text \<open>
  Only the reading of the booking summary is guarded. A booking summary that is read
  and on which \<^verbatim>\<open>get_oncehub_visits\<close> raises (a column is missing, the frame has
  no rows) ends the run with that exception, after \<^verbatim>\<open>get_doxy_visits\<close>.
\<close>

lemma generate_report_booking_aggregator_raises:
  assumes "read_errors doxy account gusto = []" "doxy = Inr d" "gusto = Inr g"
    and "get_doxy_visits (frame_rows d) = Inr doxy_visits"
    and "read_booking booking = Some b" "frame_oncehub_visits b = Inl err"
  shows "generate_report lib doxy account gusto booking =
     ([''get_doxy_visits'', ''get_oncehub_visits''], Inl err)"
  using assms by (simp add: generate_report_def generate_sections_def Let_def)

text \<open>
  Claim C9, as stated: a structural failure in one of the three required sources aborts
  before any aggregation runs. A payroll export with fewer than four columns and no
  column \<^verbatim>\<open>Name\<close> is read without complaint; the run ends with \<^verbatim>\<open>KeyError\<close>
  inside \<^verbatim>\<open>get_gusto_hours\<close>, after two aggregators have run to their end.
\<close>

theorem generate_report_late_abort_counterexample:
  "generate_report left_to_right
     (Inr \<lparr>frame_columns = [''Provider name'', ''Duration''],
           frame_rows = [\<lparr>Provider_name = Some ''Jane Doe'', Duration = Some ''00:25:00''\<rparr>]\<rparr>)
     \<lparr>file_bytes = ''<table></table>'', account_is_csv = False, as_utf_16 = None,
      as_utf_8 = Some [60, 116, 97, 98, 108, 101, 62, 60, 47, 116, 97, 98, 108, 101, 62],
      as_cp1252 = Some [60, 116, 97, 98, 108, 101, 62, 60, 47, 116, 97, 98, 108, 101, 62],
      account_frame = Inr []\<rparr>
     (Inr \<lparr>frame_columns = [''Employee'', ''Hours''], frame_rows = []\<rparr>)
     None
   = ([''get_doxy_visits'', ''get_visits_by_program'', ''get_gusto_hours''], Inl (KeyError [''Name'']))"
  by code_simp

text \<open>
  Claim C9, amended. A booking summary whose reading fails (the reader raises, or the
  frame has no column to rename) is treated as one that was not supplied: no error is
  recorded for it and the run is the run without a booking summary. When the three
  required sources are read without a recorded problem and their four aggregators
  return their tables, the report is produced from these tables without the OnceHub
  Visits sheet, \<^verbatim>\<open>get_oncehub_visits\<close> not being called. A problem found while
  reading the required sources (the visit log or the payroll export cannot be read, or
  the visit log lacks \<^verbatim>\<open>Provider name\<close> or \<^verbatim>\<open>Duration\<close>) aborts with the
  collected messages before any aggregator is called, whatever the booking summary is.
\<close>

theorem generate_report_booking_optional:
  "generate_report lib doxy account gusto (Some (Inl e)) = generate_report lib doxy account gusto None
   \<and> generate_report lib doxy account gusto (Some (Inr (b\<lparr>frame_columns := []\<rparr>)))
       = generate_report lib doxy account gusto None
   \<and> (\<forall>calls r. generate_report lib doxy account gusto None = (calls, Inr r) \<longrightarrow>
         OnceHub_Visits r = None \<and> ''get_oncehub_visits'' \<notin> set calls)
   \<and> ((\<exists>d g. doxy = Inr d \<and> ''Provider name'' \<in> set (frame_columns d) \<and>
          ''Duration'' \<in> set (frame_columns d) \<and> gusto = Inr g \<and>
          get_doxy_visits (frame_rows d) = Inr doxy_visits \<and>
          frame_visits_by_program lib account = Inr visits_by_program \<and>
          frame_gusto_hours g (map visits_Provider_name doxy_visits) = Inr gusto_hours \<and>
          get_doxy_performance_metrics lib (frame_rows d) = Inr performance_metrics)
       \<longrightarrow> generate_report lib doxy account gusto None =
             ([''get_doxy_visits'', ''get_visits_by_program'', ''get_gusto_hours'',
               ''get_doxy_performance_metrics'', ''get_hours_worked''],
              Inr \<lparr>Doxy_Visits = doxy_visits,
                   OnceHub_Visits = None,
                   Visits_by_Program = visits_by_program,
                   Gusto_Hours_sheet = gusto_hours,
                   Doxy_Performance_Metrics = performance_metrics,
                   Hours_Worked_sheet = get_hours_worked gusto_hours performance_metrics,
                   stats_providers = length doxy_visits,
                   stats_total_visits = sum_list (map Total_Visits doxy_visits),
                   stats_sheets = 6\<rparr>))
   \<and> (((\<exists>e. doxy = Inl e) \<or>
        (\<exists>d. doxy = Inr d \<and>
           (''Provider name'' \<notin> set (frame_columns d) \<or> ''Duration'' \<notin> set (frame_columns d))) \<or>
        (\<exists>e. gusto = Inl e))
       \<longrightarrow> (\<exists>msgs. msgs \<noteq> [] \<and>
              generate_report lib doxy account gusto booking = ([], Inl (ValueError msgs))))"
proof (intro conjI allI impI)
  show "generate_report lib doxy account gusto (Some (Inl e)) = generate_report lib doxy account gusto None"
    by (rule generate_report_booking_failed)
next
  show "generate_report lib doxy account gusto (Some (Inr (b\<lparr>frame_columns := []\<rparr>)))
       = generate_report lib doxy account gusto None"
    by (simp add: generate_report_def read_booking_def booking_columns_def booking_col_of_def)
next
  fix calls r
  assume "generate_report lib doxy account gusto None = (calls, Inr r)"
  then have "OnceHub_Visits r = None \<and> ''get_oncehub_visits'' \<notin> set calls"
    by (rule generate_report_no_booking)
  then show "OnceHub_Visits r = None" and "''get_oncehub_visits'' \<notin> set calls" by simp_all
next
  assume "\<exists>d g. doxy = Inr d \<and> ''Provider name'' \<in> set (frame_columns d) \<and>
          ''Duration'' \<in> set (frame_columns d) \<and> gusto = Inr g \<and>
          get_doxy_visits (frame_rows d) = Inr doxy_visits \<and>
          frame_visits_by_program lib account = Inr visits_by_program \<and>
          frame_gusto_hours g (map visits_Provider_name doxy_visits) = Inr gusto_hours \<and>
          get_doxy_performance_metrics lib (frame_rows d) = Inr performance_metrics"
  then obtain d g where "doxy = Inr d" "''Provider name'' \<in> set (frame_columns d)"
    "''Duration'' \<in> set (frame_columns d)" "gusto = Inr g"
    "get_doxy_visits (frame_rows d) = Inr doxy_visits"
    "frame_visits_by_program lib account = Inr visits_by_program"
    "frame_gusto_hours g (map visits_Provider_name doxy_visits) = Inr gusto_hours"
    "get_doxy_performance_metrics lib (frame_rows d) = Inr performance_metrics"
    by blast
  then show "generate_report lib doxy account gusto None =
             ([''get_doxy_visits'', ''get_visits_by_program'', ''get_gusto_hours'',
               ''get_doxy_performance_metrics'', ''get_hours_worked''],
              Inr \<lparr>Doxy_Visits = doxy_visits,
                   OnceHub_Visits = None,
                   Visits_by_Program = visits_by_program,
                   Gusto_Hours_sheet = gusto_hours,
                   Doxy_Performance_Metrics = performance_metrics,
                   Hours_Worked_sheet = get_hours_worked gusto_hours performance_metrics,
                   stats_providers = length doxy_visits,
                   stats_total_visits = sum_list (map Total_Visits doxy_visits),
                   stats_sheets = 6\<rparr>)"
    by (rule generate_report_success)
next
  assume "(\<exists>e. doxy = Inl e) \<or>
        (\<exists>d. doxy = Inr d \<and>
           (''Provider name'' \<notin> set (frame_columns d) \<or> ''Duration'' \<notin> set (frame_columns d))) \<or>
        (\<exists>e. gusto = Inl e)"
  then have "read_errors doxy account gusto \<noteq> []" by (simp only: read_errors_iff)
  then show "\<exists>msgs. msgs \<noteq> [] \<and>
              generate_report lib doxy account gusto booking = ([], Inl (ValueError msgs))"
    using generate_report_abort by blast
qed


theorem generate_report_booking_optional_witness:
  "generate_report left_to_right
     (Inr \<lparr>frame_columns = [''Provider name'', ''Duration''],
           frame_rows = [\<lparr>Provider_name = Some ''Jane Doe'', Duration = Some ''00:25:00''\<rparr>]\<rparr>)
     \<lparr>file_bytes = ''<table></table>'', account_is_csv = False, as_utf_16 = None,
       as_utf_8 = Some [60, 116, 97, 98, 108, 101, 62, 60, 47, 116, 97, 98, 108, 101, 62],
       as_cp1252 = Some [60, 116, 97, 98, 108, 101, 62, 60, 47, 116, 97, 98, 108, 101, 62],
       account_frame = Inr [\<lparr>Status = Some ''Completed'', Provider = Some ''Jane Doe'',
                             Event_Type = Some ''TRT Follow-up''\<rparr>]\<rparr>
     (Inr \<lparr>frame_columns = [''Employee'', ''Job'', ''Boss'', ''Hours''],
           frame_rows = [\<lparr>Name = Some ''Jane Doe'', Total_hours = Some 40\<rparr>]\<rparr>)
     (Some (Inl ''File is not a recognized spreadsheet''))
   = ([''get_doxy_visits'', ''get_visits_by_program'', ''get_gusto_hours'',
       ''get_doxy_performance_metrics'', ''get_hours_worked''],
      Inr \<lparr>Doxy_Visits = [\<lparr>visits_Provider_name = ''Jane Doe'', Total_Visits = 1\<rparr>],
            OnceHub_Visits = None,
            Visits_by_Program = [\<lparr>program_Provider = ''Jane Doe'', TRT_count = 1, HRT_count = 0, Other_count = 0, Total = 1\<rparr>],
            Gusto_Hours_sheet = [\<lparr>gusto_Name = ''Jane Doe'', gusto_Total_hours = 40\<rparr>],
            Doxy_Performance_Metrics = [\<lparr>metrics_Provider = ''Jane Doe'', metrics_Total_Visits = 1, Visits_Over_20_Min = 1,
             Pct_Over_20_Min = float_literal 100, Hours_Over_20_Min = float_literal (42 / 100),
             Avg_Duration_Min = float_literal 25\<rparr>],
            Hours_Worked_sheet = [\<lparr>hours_Provider = ''Jane Doe'', Gusto_Hours = 40, hours_Total_Visits = 1, Hours_Worked = 33 / 100\<rparr>],
            stats_providers = 1, stats_total_visits = 1, stats_sheets = 6\<rparr>)
   \<and> (\<exists>msgs. msgs \<noteq> [] \<and>
        generate_report left_to_right
          (Inl ''No columns to parse from file'')
          \<lparr>file_bytes = ''<table></table>'', account_is_csv = False, as_utf_16 = None,
       as_utf_8 = Some [60, 116, 97, 98, 108, 101, 62, 60, 47, 116, 97, 98, 108, 101, 62],
       as_cp1252 = Some [60, 116, 97, 98, 108, 101, 62, 60, 47, 116, 97, 98, 108, 101, 62],
       account_frame = Inr [\<lparr>Status = Some ''Completed'', Provider = Some ''Jane Doe'',
                             Event_Type = Some ''TRT Follow-up''\<rparr>]\<rparr>
          (Inr \<lparr>frame_columns = [''Employee'', ''Job'', ''Boss'', ''Hours''],
           frame_rows = [\<lparr>Name = Some ''Jane Doe'', Total_hours = Some 40\<rparr>]\<rparr>)
          (Some (Inl ''File is not a recognized spreadsheet''))
        = ([], Inl (ValueError msgs)))"
proof -
  let ?d = "\<lparr>frame_columns = [''Provider name'', ''Duration''],
           frame_rows = [\<lparr>Provider_name = Some ''Jane Doe'', Duration = Some ''00:25:00''\<rparr>]\<rparr>"
  let ?g = "\<lparr>frame_columns = [''Employee'', ''Job'', ''Boss'', ''Hours''],
           frame_rows = [\<lparr>Name = Some ''Jane Doe'', Total_hours = Some 40\<rparr>]\<rparr>"
  let ?A = "\<lparr>file_bytes = ''<table></table>'', account_is_csv = False, as_utf_16 = None,
       as_utf_8 = Some [60, 116, 97, 98, 108, 101, 62, 60, 47, 116, 97, 98, 108, 101, 62],
       as_cp1252 = Some [60, 116, 97, 98, 108, 101, 62, 60, 47, 116, 97, 98, 108, 101, 62],
       account_frame = Inr [\<lparr>Status = Some ''Completed'', Provider = Some ''Jane Doe'',
                             Event_Type = Some ''TRT Follow-up''\<rparr>]\<rparr>"
  have dv: "get_doxy_visits (frame_rows ?d) = Inr [\<lparr>visits_Provider_name = ''Jane Doe'', Total_Visits = 1\<rparr>]"
    by code_simp
  have vp: "frame_visits_by_program left_to_right ?A = Inr [\<lparr>program_Provider = ''Jane Doe'', TRT_count = 1, HRT_count = 0, Other_count = 0, Total = 1\<rparr>]"
    by code_simp
  have gh: "frame_gusto_hours ?g (map visits_Provider_name [\<lparr>visits_Provider_name = ''Jane Doe'', Total_Visits = 1\<rparr>]) = Inr [\<lparr>gusto_Name = ''Jane Doe'', gusto_Total_hours = 40\<rparr>]"
    by code_simp
  have pm: "get_doxy_performance_metrics left_to_right (frame_rows ?d) = Inr [\<lparr>metrics_Provider = ''Jane Doe'', metrics_Total_Visits = 1, Visits_Over_20_Min = 1,
             Pct_Over_20_Min = float_literal 100, Hours_Over_20_Min = float_literal (42 / 100),
             Avg_Duration_Min = float_literal 25\<rparr>]"
    by code_simp
  have hw: "get_hours_worked [\<lparr>gusto_Name = ''Jane Doe'', gusto_Total_hours = 40\<rparr>] [\<lparr>metrics_Provider = ''Jane Doe'', metrics_Total_Visits = 1, Visits_Over_20_Min = 1,
             Pct_Over_20_Min = float_literal 100, Hours_Over_20_Min = float_literal (42 / 100),
             Avg_Duration_Min = float_literal 25\<rparr>] = [\<lparr>hours_Provider = ''Jane Doe'', Gusto_Hours = 40, hours_Total_Visits = 1, Hours_Worked = 33 / 100\<rparr>]"
    by code_simp
  have ok: "\<exists>d g. (Inr ?d :: string + visit frame) = Inr d \<and>
          ''Provider name'' \<in> set (frame_columns d) \<and>
          ''Duration'' \<in> set (frame_columns d) \<and> (Inr ?g :: string + payroll frame) = Inr g \<and>
          get_doxy_visits (frame_rows d) = Inr [\<lparr>visits_Provider_name = ''Jane Doe'', Total_Visits = 1\<rparr>] \<and>
          frame_visits_by_program left_to_right ?A = Inr [\<lparr>program_Provider = ''Jane Doe'', TRT_count = 1, HRT_count = 0, Other_count = 0, Total = 1\<rparr>] \<and>
          frame_gusto_hours g (map visits_Provider_name [\<lparr>visits_Provider_name = ''Jane Doe'', Total_Visits = 1\<rparr>]) = Inr [\<lparr>gusto_Name = ''Jane Doe'', gusto_Total_hours = 40\<rparr>] \<and>
          get_doxy_performance_metrics left_to_right (frame_rows d) = Inr [\<lparr>metrics_Provider = ''Jane Doe'', metrics_Total_Visits = 1, Visits_Over_20_Min = 1,
             Pct_Over_20_Min = float_literal 100, Hours_Over_20_Min = float_literal (42 / 100),
             Avg_Duration_Min = float_literal 25\<rparr>]"
    using dv vp gh pm by simp
  have bad: "\<exists>e. (Inl ''No columns to parse from file'' :: string + visit frame) = Inl e"
    by simp
  have first: "generate_report left_to_right (Inr ?d) ?A (Inr ?g)
     (Some (Inl ''File is not a recognized spreadsheet''))
   = ([''get_doxy_visits'', ''get_visits_by_program'', ''get_gusto_hours'',
       ''get_doxy_performance_metrics'', ''get_hours_worked''],
      Inr \<lparr>Doxy_Visits = [\<lparr>visits_Provider_name = ''Jane Doe'', Total_Visits = 1\<rparr>],
            OnceHub_Visits = None,
            Visits_by_Program = [\<lparr>program_Provider = ''Jane Doe'', TRT_count = 1, HRT_count = 0, Other_count = 0, Total = 1\<rparr>],
            Gusto_Hours_sheet = [\<lparr>gusto_Name = ''Jane Doe'', gusto_Total_hours = 40\<rparr>],
            Doxy_Performance_Metrics = [\<lparr>metrics_Provider = ''Jane Doe'', metrics_Total_Visits = 1, Visits_Over_20_Min = 1,
             Pct_Over_20_Min = float_literal 100, Hours_Over_20_Min = float_literal (42 / 100),
             Avg_Duration_Min = float_literal 25\<rparr>],
            Hours_Worked_sheet = [\<lparr>hours_Provider = ''Jane Doe'', Gusto_Hours = 40, hours_Total_Visits = 1, Hours_Worked = 33 / 100\<rparr>],
            stats_providers = 1, stats_total_visits = 1, stats_sheets = 6\<rparr>)"
    using generate_report_booking_optional
      [of left_to_right "Inr ?d" ?A "Inr ?g" "''File is not a recognized spreadsheet''" _
          "[\<lparr>visits_Provider_name = ''Jane Doe'', Total_Visits = 1\<rparr>]" "[\<lparr>program_Provider = ''Jane Doe'', TRT_count = 1, HRT_count = 0, Other_count = 0, Total = 1\<rparr>]" "[\<lparr>gusto_Name = ''Jane Doe'', gusto_Total_hours = 40\<rparr>]" "[\<lparr>metrics_Provider = ''Jane Doe'', metrics_Total_Visits = 1, Visits_Over_20_Min = 1,
             Pct_Over_20_Min = float_literal 100, Hours_Over_20_Min = float_literal (42 / 100),
             Avg_Duration_Min = float_literal 25\<rparr>]" None] ok hw
    by simp
  have second: "\<exists>msgs. msgs \<noteq> [] \<and>
        generate_report left_to_right
          (Inl ''No columns to parse from file'') ?A (Inr ?g)
          (Some (Inl ''File is not a recognized spreadsheet''))
        = ([], Inl (ValueError msgs))"
    using generate_report_booking_optional
      [of left_to_right "Inl ''No columns to parse from file''" ?A "Inr ?g" "''x''" _
          _ _ _ _ "Some (Inl ''File is not a recognized spreadsheet'')"] bad
    by blast
  from first second show ?thesis by simp
qed

end
